theory Spec2Isabelle
  imports Complex_Main
begin

section \<open>Conventions of the embedding\<close>

text \<open>
  Python floats are modelled as the real numbers, Python \<^verbatim>\<open>None\<close>-able floats as
  \<open>real option\<close>, Python lists as HOL lists and raised exceptions as the left
  summand of a result type.  In the LoanAmortizer, whose statements are sensitive to
  rounding, every float operation is followed by a rounding function.  The
  pseudo-random source and the external IRR root-finder (\<^verbatim>\<open>numpy_financial.irr\<close>) are
  parameters of the functions that call them.
\<close>

datatype py_error =
    ValueError string
  | ZeroDivisionError
  | IndexError
  | TypeError
  | UncaughtError

section \<open>LoanAmortizer: \<^verbatim>\<open>deploy_backend/lender_cashflow_calculator.py\<close>\<close>

text \<open>
  The amortizer adds and subtracts the same quantity in one month, so its statements
  are sensitive to rounding.  Every float operation of the amortizer is therefore the
  exact operation followed by a rounding function \<open>rnd\<close>, a parameter of the model.
  The properties below are those of IEEE round-to-nearest on results that do not
  overflow: it is monotone, symmetric, idempotent, and leaves 0 and 1 as they are.
  Infinities and \<^verbatim>\<open>nan\<close> are outside the model.
\<close>

definition float_rounding :: "(real \<Rightarrow> real) \<Rightarrow> bool" where
  "float_rounding rnd \<longleftrightarrow>
     (\<forall>x y. x \<le> y \<longrightarrow> rnd x \<le> rnd y) \<and> rnd 0 = 0 \<and> rnd 1 = 1 \<and>
     (\<forall>x. rnd (- x) = - rnd x) \<and> (\<forall>x. rnd (rnd x) = rnd x)"

text \<open>Arithmetic without rounding error, one instance of \<open>float_rounding\<close>.\<close>

definition exact_arithmetic :: "real \<Rightarrow> real" where
  "exact_arithmetic x = x"

text \<open>
  \<^verbatim>\<open>monthly_interest_rate = (1 + yearly_interest_rate) ** (1/12) - 1\<close>.  Python's
  \<^verbatim>\<open>**\<close> returns a complex number for a negative base and the non-integer exponent
  \<^verbatim>\<open>1/12\<close>, without raising; the value of that complex number is not carried by the
  model.  The library power is taken as the rounded exact power; a library may return
  the neighbouring float, and the properties below use of the rate only that it is a
  float, and not negative for a yearly rate that is not negative.
\<close>

datatype py_rate = FloatRate real | ComplexRate

definition monthly_interest_rate :: "(real \<Rightarrow> real) \<Rightarrow> real \<Rightarrow> py_rate" where
  "monthly_interest_rate rnd yearly_interest_rate =
     (let base = rnd (1 + yearly_interest_rate);
          exponent = rnd (1 / 12)
      in if base < 0 then ComplexRate
         else FloatRate (rnd (rnd (base powr exponent) - 1)))"

text \<open>The two variables the loop of \<^verbatim>\<open>calculate_lender_cashflows\<close> mutates.\<close>

record loan_state =
  lender_cashflows :: "real list"
  outstanding_principal :: real

text \<open>
  The principal repaid in one month with a positive flow and a float rate (the local
  variable \<^verbatim>\<open>actual_principal_payment\<close>, lines 40--49).
\<close>

definition actual_principal_payment ::
  "(real \<Rightarrow> real) \<Rightarrow> real \<Rightarrow> real \<Rightarrow> real \<Rightarrow> real \<Rightarrow> real" where
  "actual_principal_payment rnd loan_percentage rate outstanding original_flow =
     (let max_payment = rnd (original_flow * loan_percentage);
          interest_payment = rnd (outstanding * rate);
          available_principal_payment = rnd (max_payment - interest_payment)
      in min available_principal_payment outstanding)"

text \<open>
  One iteration of the loop body (lines 34--57).  With a complex rate the interest and
  the available principal payment are complex, and \<^verbatim>\<open>min\<close> raises \<^verbatim>\<open>TypeError\<close> when it
  compares them with the outstanding principal.
\<close>

definition process_month ::
  "(real \<Rightarrow> real) \<Rightarrow> real \<Rightarrow> py_rate \<Rightarrow> loan_state \<Rightarrow> real \<Rightarrow> py_error + loan_state" where
  "process_month rnd loan_percentage rate st original_flow =
     (if original_flow \<le> 0 then
        Inr (st\<lparr>lender_cashflows := lender_cashflows st @ [0]\<rparr>)
      else
        (case rate of
           ComplexRate \<Rightarrow> Inl TypeError
         | FloatRate r \<Rightarrow>
             (let interest_payment = rnd (outstanding_principal st * r);
                  actual = actual_principal_payment rnd loan_percentage r
                             (outstanding_principal st) original_flow;
                  total_payment = rnd (interest_payment + actual)
              in Inr \<lparr>lender_cashflows = lender_cashflows st @ [total_payment],
                      outstanding_principal = rnd (outstanding_principal st - actual)\<rparr>)))"

text \<open>The loop (line 34): it stops at the first iteration that raises.\<close>

fun process_months ::
  "(real \<Rightarrow> real) \<Rightarrow> real \<Rightarrow> py_rate \<Rightarrow> loan_state \<Rightarrow> real list \<Rightarrow> py_error + loan_state" where
  "process_months rnd loan_percentage rate st [] = Inr st"
| "process_months rnd loan_percentage rate st (original_flow # flows) =
     (case process_month rnd loan_percentage rate st original_flow of
        Inl e \<Rightarrow> Inl e
      | Inr st' \<Rightarrow> process_months rnd loan_percentage rate st' flows)"

text \<open>The state before the loop (lines 24--31).\<close>

definition initial_loan_state :: "(real \<Rightarrow> real) \<Rightarrow> real list \<Rightarrow> real \<Rightarrow> loan_state" where
  "initial_loan_state rnd original_cashflows loan_percentage =
     (let loan_amount = rnd (hd original_cashflows * loan_percentage)
      in \<lparr>lender_cashflows = [loan_amount], outstanding_principal = \<bar>loan_amount\<bar>\<rparr>)"

text \<open>The loop state after the first \<open>k\<close> months have been processed.\<close>

definition loan_state_after ::
  "(real \<Rightarrow> real) \<Rightarrow> real list \<Rightarrow> real \<Rightarrow> real \<Rightarrow> nat \<Rightarrow> py_error + loan_state" where
  "loan_state_after rnd original_cashflows loan_percentage yearly_interest_rate k =
     process_months rnd loan_percentage (monthly_interest_rate rnd yearly_interest_rate)
       (initial_loan_state rnd original_cashflows loan_percentage)
       (take k (tl original_cashflows))"

text \<open>The variable \<^verbatim>\<open>outstanding_principal\<close> after the first \<open>k\<close> months.\<close>

definition outstanding_after ::
  "(real \<Rightarrow> real) \<Rightarrow> real list \<Rightarrow> real \<Rightarrow> real \<Rightarrow> nat \<Rightarrow> py_error + real" where
  "outstanding_after rnd original_cashflows loan_percentage yearly_interest_rate k =
     (case loan_state_after rnd original_cashflows loan_percentage yearly_interest_rate k of
        Inl e \<Rightarrow> Inl e
      | Inr st \<Rightarrow> Inr (outstanding_principal st))"

text \<open>
  The built-in \<^verbatim>\<open>sum\<close> over floats, added from left to right starting at 0 (recent
  Python versions compensate the rounding error of the total; no statement below
  depends on the total).
\<close>

definition float_sum :: "(real \<Rightarrow> real) \<Rightarrow> real list \<Rightarrow> real" where
  "float_sum rnd xs = foldl (\<lambda>acc x. rnd (acc + x)) 0 xs"

text \<open>
  The dictionary \<^verbatim>\<open>loan_info\<close>; its last three entries repeat the monthly rate and the
  two parameters.
\<close>

record loan_info =
  loan_amount :: real
  total_payments_received :: real
  final_outstanding_principal :: real
  net_return :: real
  info_monthly_interest_rate :: py_rate
  info_loan_percentage :: real
  info_yearly_interest_rate :: real

definition calculate_lender_cashflows ::
  "(real \<Rightarrow> real) \<Rightarrow> real list \<Rightarrow> real \<Rightarrow> real \<Rightarrow> py_error + (real list \<times> loan_info)" where
  "calculate_lender_cashflows rnd original_cashflows loan_percentage yearly_interest_rate =
     (if length original_cashflows < 2 then
        Inl (ValueError ''Cash flows must have at least 2 elements'')
      else if hd original_cashflows \<ge> 0 then
        Inl (ValueError ''First cash flow must be negative (investment)'')
      else
        (case process_months rnd loan_percentage
                (monthly_interest_rate rnd yearly_interest_rate)
                (initial_loan_state rnd original_cashflows loan_percentage)
                (tl original_cashflows) of
           Inl e \<Rightarrow> Inl e
         | Inr st \<Rightarrow>
             (let total_loan_amount = \<bar>rnd (hd original_cashflows * loan_percentage)\<bar>;
                  total_payments = float_sum rnd (tl (lender_cashflows st))
              in Inr (lender_cashflows st,
                      \<lparr>loan_amount = total_loan_amount,
                       total_payments_received = total_payments,
                       final_outstanding_principal = outstanding_principal st,
                       net_return = rnd (total_payments - total_loan_amount),
                       info_monthly_interest_rate =
                         monthly_interest_rate rnd yearly_interest_rate,
                       info_loan_percentage = loan_percentage,
                       info_yearly_interest_rate = yearly_interest_rate\<rparr>))))"

text \<open>The inputs \<^verbatim>\<open>calculate_lender_cashflows\<close> does not reject.\<close>

definition accepted :: "real list \<Rightarrow> bool" where
  "accepted original_cashflows \<longleftrightarrow> 2 \<le> length original_cashflows \<and> hd original_cashflows < 0"

text \<open>
  Reading entry \<open>k\<close> of the returned list, as a caller does with
  \<^verbatim>\<open>lender_cf, info = calculate_lender_cashflows(...)\<close> and \<^verbatim>\<open>lender_cf[k]\<close>.
\<close>

definition lender_payment ::
  "(real \<Rightarrow> real) \<Rightarrow> real list \<Rightarrow> real \<Rightarrow> real \<Rightarrow> nat \<Rightarrow> py_error + real" where
  "lender_payment rnd original_cashflows loan_percentage yearly_interest_rate k =
     (case calculate_lender_cashflows rnd original_cashflows loan_percentage
             yearly_interest_rate of
        Inl e \<Rightarrow> Inl e
      | Inr (lcf, info) \<Rightarrow> if k < length lcf then Inr (lcf ! k) else Inl IndexError)"

section \<open>CohortCashFlowProjector: \<^verbatim>\<open>deploy_backend/create_comprehensive_table.py\<close>\<close>

text \<open>
  One row of \<^verbatim>\<open>build_gross_profit_table\<close> (the body of its loop over the simulations,
  lines 145--177), for one paired value \<^verbatim>\<open>(sm_value, predicted_ratio)\<close>, one retention
  curve and the gross margin.  Line 148:
  \<^verbatim>\<open>sm_ratio = sm_value / predicted_ratio if predicted_ratio != 0 else None\<close>.
\<close>

definition sm_ratio :: "real \<Rightarrow> real \<Rightarrow> real option" where
  "sm_ratio sm_value predicted_ratio =
     (if predicted_ratio \<noteq> 0 then Some (sm_value / predicted_ratio) else None)"

text \<open>Lines 160--163: the revenue of a month from the previous one and the retention value.\<close>

definition next_revenue :: "real option \<Rightarrow> real option \<Rightarrow> real option" where
  "next_revenue prev_revenue retention_value =
     (if prev_revenue \<noteq> None \<and> retention_value \<noteq> None
      then Some (the prev_revenue * the retention_value) else None)"

text \<open>Lines 155 and 165: \<^verbatim>\<open>revenue * gross_margin if revenue is not None else None\<close>.\<close>

definition gross_profit_of :: "real \<Rightarrow> real option \<Rightarrow> real option" where
  "gross_profit_of gross_margin revenue =
     (if revenue \<noteq> None then Some (the revenue * gross_margin) else None)"

text \<open>
  One iteration of \<^verbatim>\<open>for month in range(1, 60)\<close>; the state is
  \<^verbatim>\<open>(prev_revenue, gross_profit_columns)\<close>.
\<close>

definition gross_profit_month ::
  "real \<Rightarrow> real option list \<Rightarrow> real option \<times> real option list \<Rightarrow> nat
   \<Rightarrow> real option \<times> real option list" where
  "gross_profit_month gross_margin retention_curve st month =
     (let retention_value = retention_curve ! month;
          revenue = next_revenue (fst st) retention_value;
          gross_profit = gross_profit_of gross_margin revenue
      in (revenue, snd st @ [gross_profit]))"

text \<open>The loop state once the months below \<open>n\<close> have been processed.\<close>

definition gross_profit_loop ::
  "real \<Rightarrow> real \<Rightarrow> real \<Rightarrow> real option list \<Rightarrow> nat \<Rightarrow> real option \<times> real option list" where
  "gross_profit_loop sm_value predicted_ratio gross_margin retention_curve n =
     foldl (gross_profit_month gross_margin retention_curve)
       (sm_ratio sm_value predicted_ratio,
        [gross_profit_of gross_margin (sm_ratio sm_value predicted_ratio)])
       [1..<n]"

record gross_profit_row =
  SM_Value :: real
  gross_profit_columns :: "real option list"
  LTV_to_CAC :: "real option"
  cash_flow :: "real list"

text \<open>
  The row.  \<^verbatim>\<open>retention_curve[month]\<close> raises \<^verbatim>\<open>IndexError\<close> on a curve with fewer than
  60 entries.  Line 177 builds the cash flow:
  \<^verbatim>\<open>[-sm_value] + [gp if gp is not None else 0 for gp in gross_profit_columns]\<close>.
\<close>

definition build_gross_profit_row ::
  "real \<Rightarrow> real \<Rightarrow> real \<Rightarrow> real option list \<Rightarrow> py_error + gross_profit_row" where
  "build_gross_profit_row sm_value predicted_ratio gross_margin retention_curve =
     (if length retention_curve < 60 then Inl IndexError
      else
        (let cols = snd (gross_profit_loop sm_value predicted_ratio gross_margin
                           retention_curve 60);
             ltv_cac = (if sm_value \<noteq> 0
                        then Some (sum_list (map the (filter (\<lambda>gp. gp \<noteq> None) cols)) / sm_value)
                        else None)
         in Inr \<lparr>SM_Value = - sm_value,
                 gross_profit_columns = cols,
                 LTV_to_CAC = ltv_cac,
                 cash_flow = (- sm_value) # map (\<lambda>gp. if gp \<noteq> None then the gp else 0) cols\<rparr>))"

text \<open>
  The revenue of month \<open>n\<close> (from 1) in the words of the specification, with the first
  month as the code computes it: \<open>spend / ratio\<close>, null when the ratio is 0; then
  \<open>revenue[n] = revenue[n-1] * curve[n]\<close> when both are non-null and null otherwise,
  where \<open>curve[n]\<close> is entry \<open>n - 1\<close> of the 0-based list.
\<close>

fun spec_revenue :: "real \<Rightarrow> real \<Rightarrow> real option list \<Rightarrow> nat \<Rightarrow> real option" where
  "spec_revenue spend ratio curve 0 = None"
| "spec_revenue spend ratio curve (Suc 0) = (if ratio = 0 then None else Some (spend / ratio))"
| "spec_revenue spend ratio curve (Suc (Suc n)) =
     (case (spec_revenue spend ratio curve (Suc n), curve ! Suc n) of
        (Some r, Some c) \<Rightarrow> Some (r * c)
      | _ \<Rightarrow> None)"

text \<open>The first month as the specification states it: 0 whenever the ratio is not positive.\<close>

definition spec_first_revenue :: "real \<Rightarrow> real \<Rightarrow> real option" where
  "spec_first_revenue spend ratio = (if ratio \<le> 0 then Some 0 else Some (spend / ratio))"

definition spec_gross_profit :: "real \<Rightarrow> real \<Rightarrow> real \<Rightarrow> real option list \<Rightarrow> nat \<Rightarrow> real option" where
  "spec_gross_profit spend ratio gross_margin curve n =
     map_option (\<lambda>r. r * gross_margin) (spec_revenue spend ratio curve n)"

section \<open>HistoricalRatioModel: \<^verbatim>\<open>backend/prediction_engine.py\<close>\<close>

text \<open>
  A month key is its position in the calendar (a natural number, ordered as
  \<^verbatim>\<open>month_to_datetime\<close> orders the month names).  The two dictionaries are association
  lists; a revenue entry may hold \<^verbatim>\<open>None\<close>.
\<close>

type_synonym month = nat
type_synonym sm_dict = "(month \<times> real) list"
type_synonym revenue_dict = "(month \<times> real option) list"

text \<open>\<^verbatim>\<open>sm_dict.get(month, 0)\<close> and \<^verbatim>\<open>revenue_dict.get(month, 0)\<close>.\<close>

definition sm_get :: "sm_dict \<Rightarrow> month \<Rightarrow> real" where
  "sm_get sm month = (case map_of sm month of None \<Rightarrow> 0 | Some v \<Rightarrow> v)"

definition revenue_get :: "revenue_dict \<Rightarrow> month \<Rightarrow> real option" where
  "revenue_get revenue month = (case map_of revenue month of None \<Rightarrow> Some 0 | Some v \<Rightarrow> v)"

text \<open>
  \<^verbatim>\<open>all_months = list(set(sm_dict.keys()) | set(revenue_dict.keys()))\<close>, sorted
  chronologically.
\<close>

definition all_months_of :: "sm_dict \<Rightarrow> revenue_dict \<Rightarrow> month list" where
  "all_months_of sm revenue = sort (remdups (map fst sm @ map fst revenue))"

text \<open>\<^verbatim>\<open>all_months[-12:] if len(all_months) >= 12 else all_months\<close>\<close>

definition last_12_months_of :: "month list \<Rightarrow> month list" where
  "last_12_months_of all_months =
     (if length all_months \<ge> 12 then drop (length all_months - 12) all_months else all_months)"

text \<open>
  One iteration of the loop of lines 169--179; the state is
  \<^verbatim>\<open>(ratios, monthly_ratios)\<close>.
\<close>

definition ratio_step ::
  "sm_dict \<Rightarrow> revenue_dict \<Rightarrow> real option list \<times> (month \<rightharpoonup> real option) \<Rightarrow> month
   \<Rightarrow> real option list \<times> (month \<rightharpoonup> real option)" where
  "ratio_step sm_d revenue_d st month =
     (let sm = sm_get sm_d month;
          revenue = revenue_get revenue_d month
      in if revenue \<noteq> None \<and> the revenue > 0 then
           (let ratio = sm / the revenue
            in (fst st @ [Some ratio], (snd st)(month \<mapsto> Some ratio)))
         else (fst st @ [None], (snd st)(month \<mapsto> None)))"

text \<open>
  The condition counted in lines 181--184 and 190--193:
  \<^verbatim>\<open>ratio is None or not isinstance(ratio, (int, float)) or not math.isfinite(ratio) or ratio > 10000\<close>.
  A real number is a finite float.
\<close>

definition is_heads :: "real option \<Rightarrow> bool" where
  "is_heads ratio \<longleftrightarrow> ratio = None \<or> the ratio > 10000"

text \<open>\<^verbatim>\<open>calculate_12_month_cac\<close>; \<^verbatim>\<open>(d.get(month, 0) or 0)\<close> reads \<^verbatim>\<open>None\<close> as 0.\<close>

definition revenue_or_0 :: "revenue_dict \<Rightarrow> month \<Rightarrow> real" where
  "revenue_or_0 revenue month = (case revenue_get revenue month of None \<Rightarrow> 0 | Some v \<Rightarrow> v)"

definition calculate_12_month_cac :: "sm_dict \<Rightarrow> revenue_dict \<Rightarrow> real" where
  "calculate_12_month_cac sm revenue =
     (let all_months = all_months_of sm revenue;
          last_12_months = last_12_months_of all_months;
          total_sm_12m = sum_list (map (sm_get sm) last_12_months);
          total_revenue_12m = sum_list (map (revenue_or_0 revenue) last_12_months);
          cac_12m = (if total_revenue_12m > 0 then total_sm_12m / total_revenue_12m else 0);
          marginal_cac =
            (if length all_months \<ge> 24 then
               (let prev_12_months = take 12 (drop (length all_months - 24) all_months);
                    sm_diff = sum_list (map (sm_get sm) last_12_months)
                              - sum_list (map (sm_get sm) prev_12_months);
                    rev_diff = sum_list (map (revenue_or_0 revenue) last_12_months)
                               - sum_list (map (revenue_or_0 revenue) prev_12_months)
                in Some (if rev_diff > 0 then sm_diff / rev_diff else 0))
             else None)
      in case marginal_cac of Some m \<Rightarrow> max cac_12m m | None \<Rightarrow> cac_12m)"

record algorithm_data =
  heads_percentage :: real
  heads_percentage_overall :: real
  heads_percentage_last_12 :: real
  distribution :: "real list"
  cac_12m :: real
  historical_ratios :: "real option list"
  conservative :: bool

definition build_prediction_algorithm :: "sm_dict \<Rightarrow> revenue_dict \<Rightarrow> bool \<Rightarrow> algorithm_data" where
  "build_prediction_algorithm sm revenue conservative_flag =
     (let all_months = all_months_of sm revenue;
          st = foldl (ratio_step sm revenue) ([], Map.empty) all_months;
          ratios = fst st;
          monthly_ratios = snd st;
          heads_count = length (filter is_heads ratios);
          overall = (if ratios \<noteq> [] then real heads_count / real (length ratios) else 0);
          last_12_months = last_12_months_of all_months;
          last_12_ratios = map (\<lambda>m. the (monthly_ratios m))
                             (filter (\<lambda>m. monthly_ratios m \<noteq> None) last_12_months);
          heads_count_last_12 = length (filter is_heads last_12_ratios);
          last_12 = (if last_12_ratios \<noteq> []
                     then real heads_count_last_12 / real (length last_12_ratios) else 0)
      in \<lparr>heads_percentage = (if conservative_flag then max overall last_12 else overall),
          heads_percentage_overall = overall,
          heads_percentage_last_12 = last_12,
          distribution = map the (filter (\<lambda>r. r \<noteq> None \<and> the r < 10000) ratios),
          cac_12m = calculate_12_month_cac sm revenue,
          historical_ratios = ratios,
          conservative = conservative_flag\<rparr>)"

text \<open>
  The specification's words.  The months of a history are the keys of either
  dictionary; the ratio of a month is undefined when its revenue is not positive; the
  most recent 12 months are those with fewer than 12 later months in the history.  A
  fraction over no month at all is taken as 0, as the code does.
\<close>

definition history_months :: "sm_dict \<Rightarrow> revenue_dict \<Rightarrow> month set" where
  "history_months sm revenue = fst ` set sm \<union> fst ` set revenue"

definition revenue_positive :: "revenue_dict \<Rightarrow> month \<Rightarrow> bool" where
  "revenue_positive revenue m \<longleftrightarrow> (case revenue_get revenue m of None \<Rightarrow> False | Some r \<Rightarrow> 0 < r)"

definition spec_heads_month :: "sm_dict \<Rightarrow> revenue_dict \<Rightarrow> month \<Rightarrow> bool" where
  "spec_heads_month sm revenue m \<longleftrightarrow>
     \<not> revenue_positive revenue m \<or> sm_get sm m / revenue_or_0 revenue m > 10000"

definition most_recent_12 :: "month set \<Rightarrow> month set" where
  "most_recent_12 M = {m \<in> M. card {m' \<in> M. m < m'} < 12}"

definition fraction_of :: "month set \<Rightarrow> (month \<Rightarrow> bool) \<Rightarrow> real" where
  "fraction_of M P = (if M = {} then 0 else real (card {m \<in> M. P m}) / real (card M))"

text \<open>The ratio of a month: \<open>spend / revenue\<close> when the revenue is positive, undefined otherwise.\<close>

definition month_ratio :: "sm_dict \<Rightarrow> revenue_dict \<Rightarrow> month \<Rightarrow> real option" where
  "month_ratio sm revenue m =
     (if revenue_positive revenue m then Some (sm_get sm m / revenue_or_0 revenue m) else None)"

section \<open>RatioSampler: \<^verbatim>\<open>deploy_backend/monte_carlo_predicted_ratio.py\<close> and \<^verbatim>\<open>backend/prediction_engine.py\<close>\<close>

text \<open>
  The pseudo-random source is explicit: a state of any type \<open>'s\<close> and the two draws the
  code uses, \<^verbatim>\<open>random.random()\<close> and the index drawn by \<^verbatim>\<open>random.choice\<close>.
\<close>

record 's random_source =
  next_float :: "'s \<Rightarrow> real \<times> 's"
  next_below :: "'s \<Rightarrow> nat \<Rightarrow> nat \<times> 's"

text \<open>
  \<^verbatim>\<open>random.choice(seq)\<close> on a non-empty list: the element at an index below
  \<^verbatim>\<open>len(seq)\<close>.
\<close>

definition random_choice :: "'s random_source \<Rightarrow> 's \<Rightarrow> 'a list \<Rightarrow> 'a \<times> 's" where
  "random_choice rs s xs =
     (let d = next_below rs s (length xs) in (xs ! (fst d mod length xs), snd d))"

text \<open>Python's \<^verbatim>\<open>/\<close> raises \<^verbatim>\<open>ZeroDivisionError\<close> on a zero divisor.\<close>

definition py_div :: "real \<Rightarrow> real \<Rightarrow> py_error + real" where
  "py_div a b = (if b = 0 then Inl ZeroDivisionError else Inr (a / b))"

text \<open>
  \<^verbatim>\<open>sm_value / ((last_sm / drawn_ratio) + ((sm_value - last_sm) / cac_12m))\<close>, the
  divisions in the order Python evaluates them.
\<close>

definition harmonic_blend :: "real \<Rightarrow> real \<Rightarrow> real \<Rightarrow> real \<Rightarrow> py_error + real" where
  "harmonic_blend sm_value last_sm drawn_ratio cac =
     (case py_div last_sm drawn_ratio of
        Inl e \<Rightarrow> Inl e
      | Inr a \<Rightarrow>
         (case py_div (sm_value - last_sm) cac of
            Inl e \<Rightarrow> Inl e
          | Inr b \<Rightarrow> py_div sm_value (a + b)))"

text \<open>
  \<^verbatim>\<open>monte_carlo_predicted_ratio.py\<close>, lines 38--48: the conservative branch for a drawn
  ratio.
\<close>

definition blended_ratio_mc :: "algorithm_data \<Rightarrow> real \<Rightarrow> real \<Rightarrow> real \<Rightarrow> py_error + real" where
  "blended_ratio_mc alg sm_value last_sm drawn_ratio =
     (if conservative alg \<and> drawn_ratio < cac_12m alg then
        (if sm_value > last_sm
         then harmonic_blend sm_value last_sm drawn_ratio (cac_12m alg)
         else Inr drawn_ratio)
      else Inr drawn_ratio)"

text \<open>
  \<^verbatim>\<open>prediction_engine.py\<close>, lines 259--269: the same branch, with the guard
  \<^verbatim>\<open>sm_value > last_sm and drawn_ratio > 0\<close>.
\<close>

definition blended_ratio_pe :: "algorithm_data \<Rightarrow> real \<Rightarrow> real \<Rightarrow> real \<Rightarrow> py_error + real" where
  "blended_ratio_pe alg sm_value last_sm drawn_ratio =
     (if conservative alg \<and> drawn_ratio < cac_12m alg then
        (if sm_value > last_sm \<and> drawn_ratio > 0
         then harmonic_blend sm_value last_sm drawn_ratio (cac_12m alg)
         else Inr drawn_ratio)
      else Inr drawn_ratio)"

text \<open>
  The predicted ratio of one forecast month (lines 28--51 of
  \<^verbatim>\<open>monte_carlo_predicted_ratio.py\<close>, lines 249--272 of \<^verbatim>\<open>prediction_engine.py\<close>); the
  two files differ in the blend only, which is the first parameter.
\<close>

definition predicted_ratio ::
  "(algorithm_data \<Rightarrow> real \<Rightarrow> real \<Rightarrow> real \<Rightarrow> py_error + real) \<Rightarrow> 's random_source
   \<Rightarrow> algorithm_data \<Rightarrow> real \<Rightarrow> real \<Rightarrow> 's \<Rightarrow> py_error + (real \<times> 's)" where
  "predicted_ratio blend rs alg sm_value last_sm s =
     (let u = next_float rs s in
      if fst u < heads_percentage alg then Inr (sm_value, snd u)
      else if distribution alg \<noteq> [] then
        (let drawn = random_choice rs (snd u) (distribution alg) in
         case blend alg sm_value last_sm (fst drawn) of
           Inl e \<Rightarrow> Inl e
         | Inr r \<Rightarrow> Inr (r, snd drawn))
      else Inr (cac_12m alg, snd u))"

text \<open>\<^verbatim>\<open>sm_value = last_sm * (1.1 ** (i + 1))\<close>\<close>

definition forecast_sm :: "real \<Rightarrow> nat \<Rightarrow> real" where
  "forecast_sm last_sm i = last_sm * (11 / 10) ^ (i + 1)"

text \<open>
  The loop of \<^verbatim>\<open>run_single_prediction_ratio\<close> over the forecast months \<open>i\<close>; an
  exception ends it.
\<close>

fun mc_months ::
  "'s random_source \<Rightarrow> algorithm_data \<Rightarrow> real \<Rightarrow> nat list \<Rightarrow> 's
   \<Rightarrow> py_error + ((real \<times> real) list \<times> 's)" where
  "mc_months rs alg last_sm [] s = Inr ([], s)"
| "mc_months rs alg last_sm (i # rest) s =
     (let sm_value = forecast_sm last_sm i in
      case predicted_ratio blended_ratio_mc rs alg sm_value last_sm s of
        Inl e \<Rightarrow> Inl e
      | Inr (r, s') \<Rightarrow>
         (case mc_months rs alg last_sm rest s' of
            Inl e \<Rightarrow> Inl e
          | Inr (simulation_data, s'') \<Rightarrow> Inr ((sm_value, r) # simulation_data, s'')))"

text \<open>
  \<^verbatim>\<open>run_single_prediction_ratio\<close>: \<^verbatim>\<open>all_months[-1]\<close> raises \<^verbatim>\<open>IndexError\<close> on an empty
  history.
\<close>

definition run_single_prediction_ratio ::
  "'s random_source \<Rightarrow> sm_dict \<Rightarrow> revenue_dict \<Rightarrow> algorithm_data \<Rightarrow> 's
   \<Rightarrow> py_error + ((real \<times> real) list \<times> 's)" where
  "run_single_prediction_ratio rs sm revenue alg s =
     (let all_months = all_months_of sm revenue in
      if all_months = [] then Inl IndexError
      else mc_months rs alg (sm_get sm (last all_months)) [0..<12] s)"

text \<open>
  \<^verbatim>\<open>predict_next_12_months\<close>: the last month is the last key of \<^verbatim>\<open>sm_dict\<close>; each
  prediction holds \<^verbatim>\<open>sm_value\<close>, \<^verbatim>\<open>predicted_ratio\<close> and
  \<^verbatim>\<open>predicted_revenue = sm_value / predicted_ratio if predicted_ratio > 0 else 0\<close>.
\<close>

fun pe_months ::
  "'s random_source \<Rightarrow> algorithm_data \<Rightarrow> real \<Rightarrow> nat list \<Rightarrow> 's
   \<Rightarrow> py_error + ((real \<times> real \<times> real) list \<times> 's)" where
  "pe_months rs alg last_sm [] s = Inr ([], s)"
| "pe_months rs alg last_sm (i # rest) s =
     (let sm_value = forecast_sm last_sm i in
      case predicted_ratio blended_ratio_pe rs alg sm_value last_sm s of
        Inl e \<Rightarrow> Inl e
      | Inr (r, s') \<Rightarrow>
         (case (if r > 0 then py_div sm_value r else Inr 0) of
            Inl e \<Rightarrow> Inl e
          | Inr predicted_revenue \<Rightarrow>
             (case pe_months rs alg last_sm rest s' of
                Inl e \<Rightarrow> Inl e
              | Inr (predictions, s'') \<Rightarrow>
                  Inr ((sm_value, r, predicted_revenue) # predictions, s''))))"

definition predict_next_12_months ::
  "'s random_source \<Rightarrow> sm_dict \<Rightarrow> algorithm_data \<Rightarrow> 's
   \<Rightarrow> py_error + ((real \<times> real \<times> real) list \<times> 's)" where
  "predict_next_12_months rs sm alg s =
     (let sm_months = sort (remdups (map fst sm)) in
      if sm_months = [] then Inr ([], s)
      else pe_months rs alg (sm_get sm (last sm_months)) [0..<12] s)"

text \<open>
  A pseudo-random source whose draws are fixed: \<^verbatim>\<open>random.random()\<close> returns 0.5 and
  \<^verbatim>\<open>random.choice\<close> takes the first element.
\<close>

definition fixed_source :: "unit random_source" where
  "fixed_source = \<lparr>next_float = (\<lambda>s. (1 / 2, s)), next_below = (\<lambda>s n. (0, s))\<rparr>"

section \<open>RetentionCurveSampler: \<^verbatim>\<open>backend/simulate_retention_curve.py\<close> and \<^verbatim>\<open>deploy_backend/simulate_1000_retention_curves.py\<close>\<close>

text \<open>
  The retention table as \<^verbatim>\<open>get_retention_table\<close> returns it (the last row already
  dropped): a ragged list of rows of nullable multipliers; row 0 is the older-cohorts row.
\<close>

type_synonym retention_table = "real option list list"

text \<open>
  \<^verbatim>\<open>[row[c] for row in retention_table[1:] if c < len(row) and row[c] is not None]\<close>
\<close>

definition column_values :: "retention_table \<Rightarrow> nat \<Rightarrow> real list" where
  "column_values tbl c =
     map (\<lambda>row. the (row ! c)) (filter (\<lambda>row. c < length row \<and> row ! c \<noteq> None) (tl tbl))"

text \<open>
  The search of the first tier: the first non-empty column among the candidates, in the
  order the loop visits them (\<^verbatim>\<open>left_col\<close>, \<^verbatim>\<open>right_col\<close>).
\<close>

fun find_col :: "retention_table \<Rightarrow> nat list \<Rightarrow> nat option" where
  "find_col tbl [] = None"
| "find_col tbl (c # cs) = (if column_values tbl c \<noteq> [] then Some c else find_col tbl cs)"

text \<open>
  The search of the other tiers: non-empty columns are appended to \<^verbatim>\<open>left_cols\<close>
  (\<^verbatim>\<open>right_cols\<close>) and the loop breaks when their number equals the quota.
\<close>

fun find_cols :: "retention_table \<Rightarrow> nat \<Rightarrow> nat list \<Rightarrow> nat list \<Rightarrow> nat list" where
  "find_cols tbl quota [] found = found"
| "find_cols tbl quota (c # cs) found =
     (if column_values tbl c \<noteq> [] then
        (let found' = found @ [c]
         in if length found' = quota then found' else find_cols tbl quota cs found')
      else find_cols tbl quota cs found)"

text \<open>
  The pool of the tiers below 12 values, which differ in the quota only:
  \<^verbatim>\<open>range(col - 1, -1, -1)\<close> to the left, \<^verbatim>\<open>range(col + 1, 60)\<close> to the right, then the
  values of the column, of the left columns and of the right columns.
\<close>

definition widened_pool :: "retention_table \<Rightarrow> nat \<Rightarrow> nat \<Rightarrow> real list" where
  "widened_pool tbl col quota =
     (let left_cols = find_cols tbl quota (rev [0..<col]) [];
          right_cols = find_cols tbl quota [col + 1..<60] []
      in column_values tbl col
         @ concat (map (column_values tbl) left_cols)
         @ concat (map (column_values tbl) right_cols))"

text \<open>The pool \<^verbatim>\<open>all_values\<close> of a column, by the four tiers.\<close>

definition column_pool :: "retention_table \<Rightarrow> nat \<Rightarrow> real list" where
  "column_pool tbl col =
     (let col_values = column_values tbl col in
      if length col_values \<ge> 12 then
        (let left_col = find_col tbl (rev [0..<col]);
             right_col = find_col tbl [col + 1..<60]
         in col_values
            @ (case left_col of None \<Rightarrow> [] | Some l \<Rightarrow> column_values tbl l)
            @ (case right_col of None \<Rightarrow> [] | Some r \<Rightarrow> column_values tbl r))
      else if length col_values \<ge> 5 then widened_pool tbl col 2
      else if length col_values \<ge> 2 then widened_pool tbl col 3
      else widened_pool tbl col 5)"

text \<open>
  \<^verbatim>\<open>chosen\<close> before the dampening: \<^verbatim>\<open>random.choice(all_values)\<close> in the first tier and
  \<^verbatim>\<open>random.choice(all_values) if all_values else None\<close> in the others.  No draw is
  made from an empty pool.
\<close>

definition draw_column ::
  "'s random_source \<Rightarrow> retention_table \<Rightarrow> nat \<Rightarrow> 's \<Rightarrow> real option \<times> 's" where
  "draw_column rs tbl col s =
     (let all_values = column_pool tbl col in
      if length (column_values tbl col) \<ge> 12 \<or> all_values \<noteq> [] then
        (let d = random_choice rs s all_values in (Some (fst d), snd d))
      else (None, s))"

text \<open>
  \<^verbatim>\<open>if conservative and chosen is not None and chosen > max(1, min_ndr_12th_root):\<close>
  \<^verbatim>\<open>chosen = (max(1, min_ndr_12th_root) + chosen) / 2\<close>
\<close>

definition conservative_dampening :: "bool \<Rightarrow> real \<Rightarrow> real option \<Rightarrow> real option" where
  "conservative_dampening conservative_flag min_ndr_12th_root chosen =
     (if conservative_flag \<and> chosen \<noteq> None \<and> the chosen > max 1 min_ndr_12th_root
      then Some ((max 1 min_ndr_12th_root + the chosen) / 2)
      else chosen)"

text \<open>The value appended to \<^verbatim>\<open>simulated_curve\<close> for one column.\<close>

definition sample_column ::
  "'s random_source \<Rightarrow> retention_table \<Rightarrow> real \<Rightarrow> bool \<Rightarrow> nat \<Rightarrow> 's \<Rightarrow> real option \<times> 's" where
  "sample_column rs tbl min_ndr_12th_root conservative_flag col s =
     (let d = draw_column rs tbl col s
      in (conservative_dampening conservative_flag min_ndr_12th_root (fst d), snd d))"

text \<open>The loop \<^verbatim>\<open>for col in range(60)\<close>, the random state threaded through the columns.\<close>

fun simulate_columns ::
  "'s random_source \<Rightarrow> retention_table \<Rightarrow> real \<Rightarrow> bool \<Rightarrow> nat list \<Rightarrow> 's
   \<Rightarrow> real option list \<times> 's" where
  "simulate_columns rs tbl floor_ndr conservative_flag [] s = ([], s)"
| "simulate_columns rs tbl floor_ndr conservative_flag (col # cols) s =
     (let d = sample_column rs tbl floor_ndr conservative_flag col s;
          rest = simulate_columns rs tbl floor_ndr conservative_flag cols (snd d)
      in (fst d # fst rest, snd rest))"

definition simulate_retention_curve ::
  "'s random_source \<Rightarrow> retention_table \<Rightarrow> real \<Rightarrow> bool \<Rightarrow> 's \<Rightarrow> real option list \<times> 's" where
  "simulate_retention_curve rs tbl min_ndr_12th_root conservative_flag s =
     simulate_columns rs tbl min_ndr_12th_root conservative_flag [0..<60] s"

text \<open>The outer loop \<^verbatim>\<open>for sim in range(1000)\<close> of \<^verbatim>\<open>simulate_1000_retention_curves\<close>.\<close>

fun simulate_curves ::
  "'s random_source \<Rightarrow> retention_table \<Rightarrow> real \<Rightarrow> bool \<Rightarrow> nat \<Rightarrow> 's
   \<Rightarrow> real option list list \<times> 's" where
  "simulate_curves rs tbl floor_ndr conservative_flag 0 s = ([], s)"
| "simulate_curves rs tbl floor_ndr conservative_flag (Suc n) s =
     (let d = simulate_retention_curve rs tbl floor_ndr conservative_flag s;
          rest = simulate_curves rs tbl floor_ndr conservative_flag n (snd d)
      in (fst d # fst rest, snd rest))"

definition simulate_1000_retention_curves ::
  "'s random_source \<Rightarrow> retention_table \<Rightarrow> real \<Rightarrow> bool \<Rightarrow> 's \<Rightarrow> real option list list \<times> 's" where
  "simulate_1000_retention_curves rs tbl min_ndr_12th_root conservative_flag s =
     simulate_curves rs tbl min_ndr_12th_root conservative_flag 1000 s"

text \<open>
  The dampening in the words of the specification: the value itself when it is at most
  \<open>max(1, floor)\<close>, the average of the value and \<open>max(1, floor)\<close> when it is above.
\<close>

definition spec_dampened :: "real \<Rightarrow> real option \<Rightarrow> real option" where
  "spec_dampened floor_ndr chosen =
     (case chosen of
        None \<Rightarrow> None
      | Some v \<Rightarrow> if v \<le> max 1 floor_ndr then Some v else Some ((v + max 1 floor_ndr) / 2))"

text \<open>
  \<^verbatim>\<open>get_retention_table\<close>, from the revenue arrays of the cohorts (an entry that is
  \<^verbatim>\<open>None\<close> or the empty string is \<open>None\<close> here).  A cell is \<^verbatim>\<open>curr / left\<close> unless
  \<^verbatim>\<open>left\<close> is null or 0 or \<^verbatim>\<open>curr\<close> is null; the rows from the third on are cut to
  \<^verbatim>\<open>max(num_cols - (i - 1), 0)\<close> cells; the last row is removed.  \<^verbatim>\<open>row[:max_len]\<close>
  with a negative \<^verbatim>\<open>max_len\<close> drops cells from the end.
\<close>

definition retention_cell :: "real option \<Rightarrow> real option \<Rightarrow> real option" where
  "retention_cell left current =
     (if left \<noteq> None \<and> the left \<noteq> 0 \<and> current \<noteq> None then Some (the current / the left) else None)"

definition retention_row :: "real option list \<Rightarrow> real option list" where
  "retention_row rev_arr = map (\<lambda>j. retention_cell (rev_arr ! (j - 1)) (rev_arr ! j)) [1..<length rev_arr]"

definition py_prefix :: "'a list \<Rightarrow> int \<Rightarrow> 'a list" where
  "py_prefix xs k = (if k < 0 then take (nat (int (length xs) + k)) xs else take (nat k) xs)"

definition capped_row :: "int \<Rightarrow> nat \<Rightarrow> real option list \<Rightarrow> real option list" where
  "capped_row num_cols i rev_arr =
     (let row = retention_row rev_arr;
          max_len = (if i \<ge> 2 then max (num_cols - (int i - 1)) 0 else num_cols)
      in if int (length row) > max_len then py_prefix row max_len else row)"

definition get_retention_table :: "real option list list \<Rightarrow> py_error + retention_table" where
  "get_retention_table cohorts_data =
     (if cohorts_data = [] then Inl IndexError
      else
        (let num_cols = int (length (hd cohorts_data)) - 1;
             tbl = map (\<lambda>i. capped_row num_cols i (cohorts_data ! i)) [0..<length cohorts_data]
         in Inr (butlast tbl)))"

text \<open>
  Three cohorts observed over 62 months: no revenue at all, a first revenue in month 61
  (100, then 150), and the current cohort.
\<close>

definition wide_cohorts :: "real option list list" where
  "wide_cohorts =
     [replicate 62 (Some 0), replicate 60 (Some 0) @ [Some 100, Some 150], replicate 62 (Some 0)]"

text \<open>A table of 61 columns whose only observed value lies in column 60.\<close>

definition wide_table :: retention_table where
  "wide_table = [replicate 61 None, replicate 60 None @ [Some (3 / 2)]]"

section \<open>ReturnCapEngine: \<^verbatim>\<open>deploy_backend/fund_performance_model.py\<close>\<close>

text \<open>
  The root-finder \<^verbatim>\<open>numpy_financial.irr\<close> is not part of the repository; it is a
  parameter.  A call returns a finite rate, returns \<^verbatim>\<open>nan\<close> (no root found), or raises;
  the library computes a rate from a root of a polynomial and returns no infinite value.
  The library itself may be missing: then the import inside the first \<^verbatim>\<open>try\<close> raises
  \<^verbatim>\<open>ImportError\<close> and every later use of the name \<^verbatim>\<open>irr\<close> raises \<^verbatim>\<open>NameError\<close>.
\<close>

datatype irr_outcome = Rate real | NaN | Raised

type_synonym irr_library = "(real list \<Rightarrow> irr_outcome) option"

definition call_irr :: "irr_library \<Rightarrow> real list \<Rightarrow> irr_outcome" where
  "call_irr lib cfs = (case lib of None \<Rightarrow> Raised | Some irr \<Rightarrow> irr cfs)"

text \<open>Lines 39--46: 80\% of every positive gross profit of the first months.\<close>

definition monthly_returns_of :: "real option list \<Rightarrow> nat \<Rightarrow> real list" where
  "monthly_returns_of gross_profit_series n =
     map (\<lambda>month. if gross_profit_series ! month \<noteq> None \<and> the (gross_profit_series ! month) > 0
                   then the (gross_profit_series ! month) * (4 / 5) else 0) [0..<n]"

text \<open>\<^verbatim>\<open>calculate_simple_irr\<close>, the fallback of the \<^verbatim>\<open>except\<close> branches.\<close>

definition calculate_simple_irr :: "real \<Rightarrow> real list \<Rightarrow> real" where
  "calculate_simple_irr loan monthly =
     (if loan \<le> 0 then 0
      else
        (let total_return = sum_list monthly in
         if total_return \<le> 0 then - 1
         else
           (let avg_month =
                  sum_list (map (\<lambda>i. real i * monthly ! i)
                              (filter (\<lambda>i. monthly ! i > 0) [0..<length monthly]))
                  / total_return;
                avg_years = avg_month / 12
            in if avg_years > 0 then (total_return / loan) powr (1 / avg_years) - 1 else 0)))"

text \<open>
  \<^verbatim>\<open>calculate_target_return_for_irr\<close>: the target is an annual rate, converted to a
  monthly one (\<^verbatim>\<open>monthly_irr = (1 + target_irr) ** (1/12) - 1\<close>).
\<close>

definition calculate_target_return_for_irr :: "real \<Rightarrow> real \<Rightarrow> int \<Rightarrow> real" where
  "calculate_target_return_for_irr loan target_irr months =
     (if months \<le> 0 then loan * target_irr
      else
        (let monthly_irr = (1 + target_irr) powr (1 / 12) - 1;
             target_fv = loan * (1 + monthly_irr) ^ nat months
         in target_fv - loan))"

text \<open>
  The loop of lines 81--93 over the months still to visit: the first month whose
  prefix \<^verbatim>\<open>[-loan_amount] + monthly_returns[:month+1]\<close> has
  \<^verbatim>\<open>partial_irr >= target_irr\<close>; a \<^verbatim>\<open>nan\<close> compares false and an exception is
  swallowed by \<^verbatim>\<open>except: continue\<close>.
\<close>

fun find_target_month ::
  "irr_library \<Rightarrow> real \<Rightarrow> real \<Rightarrow> real list \<Rightarrow> nat list \<Rightarrow> nat option" where
  "find_target_month lib loan target_irr monthly [] = None"
| "find_target_month lib loan target_irr monthly (month # rest) =
     (case call_irr lib ((- loan) # take (month + 1) monthly) of
        Rate partial_irr \<Rightarrow>
          if partial_irr \<ge> target_irr then Some (month + 1)
          else find_target_month lib loan target_irr monthly rest
      | NaN \<Rightarrow> find_target_month lib loan target_irr monthly rest
      | Raised \<Rightarrow> find_target_month lib loan target_irr monthly rest)"

text \<open>
  Lines 89--90: \<^verbatim>\<open>for i in range(month + 1, len(final_monthly_returns)): final_monthly_returns[i] = 0\<close>
\<close>

definition zero_from :: "nat \<Rightarrow> real list \<Rightarrow> real list" where
  "zero_from m xs = foldl (\<lambda>ys i. ys[i := 0]) xs [m..<length xs]"

record fund_result =
  fund_loan_amount :: real
  target_irr :: real
  actual_irr :: real
  target_return_amount :: real
  final_return :: real
  actual_return_pct :: real
  months_to_target :: "nat option"
  months_to_max_years :: "int option"
  return_reached :: bool
  cumulative_return :: real
  final_cumulative_return :: real
  monthly_returns :: "real list"
  final_monthly_returns :: "real list"

text \<open>
  \<^verbatim>\<open>calculate_fund_returns_for_cohort\<close>.  Reading \<^verbatim>\<open>gross_profit_series[month]\<close> past the
  end raises \<^verbatim>\<open>IndexError\<close>.  The value the first \<^verbatim>\<open>try\<close> block (lines 57--73) assigns
  to \<^verbatim>\<open>actual_irr\<close> is overwritten in lines 100--107; the block only catches
  \<^verbatim>\<open>ImportError\<close>, so an exception raised by the root-finder there leaves the function.
\<close>

definition calculate_fund_returns_for_cohort ::
  "irr_library \<Rightarrow> real \<Rightarrow> real option list \<Rightarrow> real \<Rightarrow> int \<Rightarrow> py_error + fund_result" where
  "calculate_fund_returns_for_cohort lib sm_value gross_profit_series target max_years =
     (let loan = sm_value * (4 / 5);
          n = nat (min 60 (max_years * 12))
      in if length gross_profit_series < n then Inl IndexError
         else
           (let monthly = monthly_returns_of gross_profit_series n;
                cumulative = sum_list monthly;
                to_max_years = (if int (length monthly) \<ge> max_years * 12
                                then Some (max_years * 12) else None);
                cash_flow = (- loan) # monthly
            in if lib \<noteq> None \<and> length cash_flow > 1 \<and> hd cash_flow < 0
                  \<and> call_irr lib cash_flow = Raised
               then Inl UncaughtError
               else
                 (let to_target = find_target_month lib loan target monthly [0..<length monthly];
                      final = (case to_target of None \<Rightarrow> monthly | Some m \<Rightarrow> zero_from m monthly);
                      final_cumulative = sum_list final;
                      irr_final =
                        (case call_irr lib ((- loan) # final) of
                           Rate final_irr \<Rightarrow> final_irr
                         | NaN \<Rightarrow> 0
                         | Raised \<Rightarrow> calculate_simple_irr loan final)
                  in Inr \<lparr>fund_loan_amount = loan,
                          target_irr = target,
                          actual_irr = irr_final,
                          target_return_amount =
                            calculate_target_return_for_irr loan target
                              (case to_target of None \<Rightarrow> max_years * 12 | Some m \<Rightarrow> int m),
                          final_return = final_cumulative,
                          actual_return_pct = (if loan > 0 then final_cumulative / loan else 0),
                          months_to_target = to_target,
                          months_to_max_years = to_max_years,
                          return_reached = (to_target \<noteq> None),
                          cumulative_return = cumulative,
                          final_cumulative_return = final_cumulative,
                          monthly_returns = take 60 monthly,
                          final_monthly_returns = take 60 final\<rparr>)))"

text \<open>
  \<^verbatim>\<open>calculate_irr\<close>, nested in \<^verbatim>\<open>create_summary_table\<close> of
  \<^verbatim>\<open>transform_to_lender_cashflows_backup.py\<close> (lines 586--610), and the IRR cell of a
  summary row (line 669): \<^verbatim>\<open>irr_yearly if irr_yearly is not None else 0\<close>.
\<close>

definition calculate_irr :: "irr_library \<Rightarrow> real list \<Rightarrow> real option" where
  "calculate_irr lib cashflows =
     (if lib = None then None
      else if length cashflows < 2 then None
      else (case call_irr lib cashflows of
              Rate irr_monthly \<Rightarrow> Some ((1 + irr_monthly) ^ 12 - 1)
            | NaN \<Rightarrow> None
            | Raised \<Rightarrow> None))"

definition summary_irr_cell :: "irr_library \<Rightarrow> real list \<Rightarrow> real" where
  "summary_irr_cell lib column_sums =
     (case calculate_irr lib (take 60 column_sums) of None \<Rightarrow> 0 | Some irr_yearly \<Rightarrow> irr_yearly)"

text \<open>
  The specification's terms.  The net present value of a monthly cash flow at a monthly
  rate, whose roots the root-finder looks for; the annualised rate; and the month at
  which the specification caps: the first prefix whose annualised IRR reaches the
  target.
\<close>

fun npv :: "real \<Rightarrow> real list \<Rightarrow> real" where
  "npv r [] = 0"
| "npv r (c # cs) = c + npv r cs / (1 + r)"

definition annualized :: "real \<Rightarrow> real" where
  "annualized monthly_irr = (1 + monthly_irr) ^ 12 - 1"

fun spec_target_month ::
  "irr_library \<Rightarrow> real \<Rightarrow> real \<Rightarrow> real list \<Rightarrow> nat list \<Rightarrow> nat option" where
  "spec_target_month lib loan target monthly [] = None"
| "spec_target_month lib loan target monthly (month # rest) =
     (case call_irr lib ((- loan) # take (month + 1) monthly) of
        Rate monthly_irr \<Rightarrow>
          if annualized monthly_irr \<ge> target then Some (month + 1)
          else spec_target_month lib loan target monthly rest
      | NaN \<Rightarrow> spec_target_month lib loan target monthly rest
      | Raised \<Rightarrow> spec_target_month lib loan target monthly rest)"

text \<open>
  A root-finder for examples: among the given candidate rates, the first that is a root
  of the net present value; \<^verbatim>\<open>nan\<close> when none is.  Every rate it returns is a root.
\<close>

definition irr_among :: "real list \<Rightarrow> real list \<Rightarrow> irr_outcome" where
  "irr_among candidates cfs =
     (case filter (\<lambda>r. npv r cfs = 0) candidates of [] \<Rightarrow> NaN | r # _ \<Rightarrow> Rate r)"

text \<open>
  A cohort with spend 125 and gross profits 127.5 and 90 in its first two months, and a
  cohort with no gross profit at all.
\<close>

definition two_payment_series :: "real option list" where
  "two_payment_series = Some (255 / 2) # Some 90 # replicate 58 None"

definition empty_series :: "real option list" where
  "empty_series = replicate 60 None"

section \<open>Properties of the LoanAmortizer\<close>

subsection \<open>Rounding\<close>

lemma float_rounding_exact_arithmetic:
  "float_rounding exact_arithmetic"
  by (simp add: float_rounding_def exact_arithmetic_def)

lemma rounding_mono:
  "float_rounding rnd \<Longrightarrow> x \<le> y \<Longrightarrow> rnd x \<le> rnd y"
  by (simp add: float_rounding_def)

lemma rounding_zero:
  "float_rounding rnd \<Longrightarrow> rnd 0 = 0"
  by (simp add: float_rounding_def)

lemma rounding_one:
  "float_rounding rnd \<Longrightarrow> rnd 1 = 1"
  by (simp add: float_rounding_def)

lemma rounding_minus:
  "float_rounding rnd \<Longrightarrow> rnd (- x) = - rnd x"
  by (simp add: float_rounding_def)

lemma rounding_idem:
  "float_rounding rnd \<Longrightarrow> rnd (rnd x) = rnd x"
  by (simp add: float_rounding_def)

lemma rounding_nonneg:
  assumes "float_rounding rnd" and "0 \<le> x"
  shows "0 \<le> rnd x"
  using rounding_mono [OF assms(1) assms(2)] rounding_zero [OF assms(1)] by simp

lemma rounding_nonpos:
  assumes "float_rounding rnd" and "x \<le> 0"
  shows "rnd x \<le> 0"
  using rounding_mono [OF assms(1) assms(2)] rounding_zero [OF assms(1)] by simp

lemma rounding_ge_one:
  assumes "float_rounding rnd" and "1 \<le> x"
  shows "1 \<le> rnd x"
  using rounding_mono [OF assms(1) assms(2)] rounding_one [OF assms(1)] by simp

lemma rounding_abs:
  assumes "float_rounding rnd"
  shows "rnd \<bar>rnd x\<bar> = \<bar>rnd x\<bar>"
proof (cases "0 \<le> rnd x")
  case True
  then show ?thesis using rounding_idem [OF assms] by simp
next
  case False
  then have "\<bar>rnd x\<bar> = - rnd x" by simp
  then show ?thesis
    using rounding_minus [OF assms, of "rnd x"] rounding_idem [OF assms, of x] by simp
qed

subsection \<open>The monthly rate\<close>

lemma monthly_interest_rate_float:
  assumes "float_rounding rnd" and "- 1 \<le> y"
  shows "\<exists>r. monthly_interest_rate rnd y = FloatRate r"
proof -
  have "0 \<le> 1 + y" using assms(2) by simp
  then have "0 \<le> rnd (1 + y)"
    by (rule rounding_nonneg [OF assms(1)])
  then show ?thesis
    by (simp add: monthly_interest_rate_def Let_def)
qed

lemma monthly_interest_rate_nonneg:
  assumes "float_rounding rnd" and "0 \<le> y" and "monthly_interest_rate rnd y = FloatRate r"
  shows "0 \<le> r"
proof -
  have "1 \<le> 1 + y" using assms(2) by simp
  then have b: "1 \<le> rnd (1 + y)"
    by (rule rounding_ge_one [OF assms(1)])
  have "(0::real) \<le> 1 / 12" by simp
  then have e: "0 \<le> rnd (1 / 12)"
    by (rule rounding_nonneg [OF assms(1)])
  have "1 \<le> rnd (1 + y) powr rnd (1 / 12)"
    using b e by (rule ge_one_powr_ge_zero)
  then have "1 \<le> rnd (rnd (1 + y) powr rnd (1 / 12))"
    by (rule rounding_ge_one [OF assms(1)])
  then have "0 \<le> rnd (rnd (1 + y) powr rnd (1 / 12)) - 1"
    by simp
  then have "0 \<le> rnd (rnd (rnd (1 + y) powr rnd (1 / 12)) - 1)"
    by (rule rounding_nonneg [OF assms(1)])
  moreover have "r = rnd (rnd (rnd (1 + y) powr rnd (1 / 12)) - 1)"
    using assms(3) b by (simp add: monthly_interest_rate_def Let_def split: if_splits)
  ultimately show ?thesis by simp
qed

lemma monthly_interest_rate_exact:
  "0 \<le> 1 + y \<Longrightarrow>
   monthly_interest_rate exact_arithmetic y = FloatRate ((1 + y) powr (1 / 12) - 1)"
  by (simp add: monthly_interest_rate_def exact_arithmetic_def Let_def)

lemma monthly_interest_rate_exact_complex:
  "1 + y < 0 \<Longrightarrow> monthly_interest_rate exact_arithmetic y = ComplexRate"
  by (simp add: monthly_interest_rate_def exact_arithmetic_def Let_def)

text \<open>The default yearly rate of 16\% is more than 0.1\% a month.\<close>

lemma default_rate_lower:
  "(1 / 1000 :: real) < (29 / 25) powr (1 / 12) - 1"
proof -
  have pw: "(1001 / 1000 :: real) ^ 12 < 29 / 25"
    by (simp add: power_divide)
  have "((1001 / 1000 :: real) ^ 12) powr (1 / 12) = ((1001 / 1000) powr 12) powr (1 / 12)"
    by (subst powr_realpow [symmetric]) simp_all
  also have "\<dots> = (1001 / 1000) powr (12 * (1 / 12))"
    by (rule powr_powr)
  finally have root: "((1001 / 1000 :: real) ^ 12) powr (1 / 12) = 1001 / 1000"
    by simp
  have "((1001 / 1000 :: real) ^ 12) powr (1 / 12) < (29 / 25) powr (1 / 12)"
    by (rule powr_less_mono2) (use pw in simp_all)
  then have "(1001 / 1000 :: real) < (29 / 25) powr (1 / 12)"
    by (simp only: root)
  then show ?thesis
    by simp
qed

subsection \<open>The loop\<close>

lemma process_months_append:
  "process_months rnd lp rate st (xs @ ys) =
     (case process_months rnd lp rate st xs of
        Inl e \<Rightarrow> Inl e
      | Inr st' \<Rightarrow> process_months rnd lp rate st' ys)"
  by (induction xs arbitrary: st) (simp_all split: sum.split)

lemma process_months_single:
  "process_months rnd lp rate st [f] = process_month rnd lp rate st f"
  by (simp split: sum.split)

lemma loan_state_after_0:
  "loan_state_after rnd cfs lp y 0 = Inr (initial_loan_state rnd cfs lp)"
  by (simp add: loan_state_after_def)

lemma loan_state_after_Suc:
  assumes "Suc k < length cfs"
  shows "loan_state_after rnd cfs lp y (Suc k) =
           (case loan_state_after rnd cfs lp y k of
              Inl e \<Rightarrow> Inl e
            | Inr st \<Rightarrow> process_month rnd lp (monthly_interest_rate rnd y) st (cfs ! Suc k))"
proof -
  have "k < length (tl cfs)" using assms by simp
  then have "take (Suc k) (tl cfs) = take k (tl cfs) @ [tl cfs ! k]"
    by (rule take_Suc_conv_app_nth)
  moreover have "tl cfs ! k = cfs ! Suc k"
    using assms by (simp add: nth_tl)
  ultimately show ?thesis
    by (simp only: loan_state_after_def process_months_append process_months_single)
qed

lemma process_month_cashflows:
  assumes "process_month rnd lp rate st f = Inr st'"
  shows "length (lender_cashflows st') = Suc (length (lender_cashflows st)) \<and>
         (\<forall>i<length (lender_cashflows st). lender_cashflows st' ! i = lender_cashflows st ! i)"
  using assms
  by (auto simp add: process_month_def Let_def nth_append split: if_splits py_rate.splits)

lemma process_months_cashflows:
  "process_months rnd lp rate st flows = Inr st' \<Longrightarrow>
   length (lender_cashflows st') = length (lender_cashflows st) + length flows \<and>
   (\<forall>i<length (lender_cashflows st). lender_cashflows st' ! i = lender_cashflows st ! i)"
proof (induction flows arbitrary: st)
  case Nil
  then show ?case by simp
next
  case (Cons f flows)
  from Cons.prems obtain st1 where s1: "process_month rnd lp rate st f = Inr st1"
      and rest: "process_months rnd lp rate st1 flows = Inr st'"
    by (auto split: sum.splits)
  have one: "length (lender_cashflows st1) = Suc (length (lender_cashflows st))"
      and keep: "\<forall>i<length (lender_cashflows st). lender_cashflows st1 ! i = lender_cashflows st ! i"
    using process_month_cashflows [OF s1] by simp_all
  have ih: "length (lender_cashflows st') = length (lender_cashflows st1) + length flows"
      and ih2: "\<forall>i<length (lender_cashflows st1). lender_cashflows st' ! i = lender_cashflows st1 ! i"
    using Cons.IH [OF rest] by simp_all
  show ?case
    using one keep ih ih2 by simp
qed

lemma length_loan_state_after:
  assumes "loan_state_after rnd cfs lp y k = Inr st" and "k < length cfs"
  shows "length (lender_cashflows st) = Suc k"
  using process_months_cashflows [OF assms(1) [unfolded loan_state_after_def]] assms(2)
  by (simp add: initial_loan_state_def Let_def)

text \<open>With a float rate no iteration raises.\<close>

lemma process_months_float:
  "\<exists>st'. process_months rnd lp (FloatRate r) st flows = Inr st'"
proof (induction flows arbitrary: st)
  case Nil
  then show ?case by simp
next
  case (Cons f flows)
  obtain st1 where "process_month rnd lp (FloatRate r) st f = Inr st1"
    by (cases "f \<le> 0") (simp_all add: process_month_def Let_def)
  then show ?case
    using Cons.IH [of st1] by simp
qed

lemma loan_state_after_float:
  assumes "monthly_interest_rate rnd y = FloatRate r"
  shows "\<exists>st. loan_state_after rnd cfs lp y k = Inr st"
  using process_months_float [of rnd lp r] by (simp add: loan_state_after_def assms)

text \<open>
  The list a call returns holds, for month \<open>k\<close>, the entry the loop recorded in its
  \<open>k\<close>-th iteration: later iterations do not touch it.
\<close>

lemma calculate_lender_cashflows_returned:
  assumes "calculate_lender_cashflows rnd cfs lp y = Inr (lcf, info)" and "k < length cfs"
  shows "length lcf = length cfs \<and>
         (\<exists>st. loan_state_after rnd cfs lp y k = Inr st \<and> lcf ! k = lender_cashflows st ! k)"
proof -
  let ?rate = "monthly_interest_rate rnd y"
  let ?init = "initial_loan_state rnd cfs lp"
  from assms(1) obtain stf where fin: "process_months rnd lp ?rate ?init (tl cfs) = Inr stf"
      and lcf: "lcf = lender_cashflows stf"
    by (auto simp add: calculate_lender_cashflows_def Let_def split: if_splits sum.splits)
  have len: "length lcf = length cfs"
    using process_months_cashflows [OF fin] assms(2) lcf
    by (simp add: initial_loan_state_def Let_def)
  have "tl cfs = take k (tl cfs) @ drop k (tl cfs)" by simp
  then have "process_months rnd lp ?rate ?init (take k (tl cfs) @ drop k (tl cfs)) = Inr stf"
    using fin by simp
  then have "(case loan_state_after rnd cfs lp y k of
                Inl e \<Rightarrow> Inl e
              | Inr st \<Rightarrow> process_months rnd lp ?rate st (drop k (tl cfs))) = Inr stf"
    by (simp only: process_months_append loan_state_after_def)
  then obtain st where st: "loan_state_after rnd cfs lp y k = Inr st"
      and rest: "process_months rnd lp ?rate st (drop k (tl cfs)) = Inr stf"
    by (auto split: sum.splits)
  have "length (lender_cashflows st) = Suc k"
    by (rule length_loan_state_after [OF st assms(2)])
  then have "lender_cashflows stf ! k = lender_cashflows st ! k"
    using process_months_cashflows [OF rest] by simp
  then show ?thesis
    using len st lcf by simp
qed

lemma calculate_lender_cashflows_float:
  assumes "accepted cfs" and "monthly_interest_rate rnd y = FloatRate r"
  shows "\<exists>lcf info. calculate_lender_cashflows rnd cfs lp y = Inr (lcf, info)"
proof -
  obtain stf where "process_months rnd lp (FloatRate r) (initial_loan_state rnd cfs lp) (tl cfs)
      = Inr stf"
    using process_months_float by blast
  then show ?thesis
    using assms by (simp add: calculate_lender_cashflows_def accepted_def Let_def)
qed

lemma lender_payment_returned:
  assumes "calculate_lender_cashflows rnd cfs lp y = Inr (lcf, info)" and "k < length cfs"
  shows "lender_payment rnd cfs lp y k = Inr (lcf ! k)"
  using calculate_lender_cashflows_returned [OF assms] assms(1,2)
  by (simp add: lender_payment_def)

lemma lender_payment_float:
  assumes "accepted cfs" and "monthly_interest_rate rnd y = FloatRate r" and "k < length cfs"
  shows "\<exists>st. loan_state_after rnd cfs lp y k = Inr st \<and>
              lender_payment rnd cfs lp y k = Inr (lender_cashflows st ! k)"
proof -
  obtain lcf info where c: "calculate_lender_cashflows rnd cfs lp y = Inr (lcf, info)"
    using calculate_lender_cashflows_float [OF assms(1,2)] by blast
  obtain st where "loan_state_after rnd cfs lp y k = Inr st"
      and "lcf ! k = lender_cashflows st ! k"
    using calculate_lender_cashflows_returned [OF c assms(3)] by blast
  then show ?thesis
    using lender_payment_returned [OF c assms(3)] by simp
qed

text \<open>What one month does to a state that was reached.\<close>

lemma grace_month_state:
  assumes "1 \<le> k" and "k < length cfs" and "cfs ! k \<le> 0"
      and "loan_state_after rnd cfs lp y (k - 1) = Inr st"
  shows "loan_state_after rnd cfs lp y k =
           Inr (st\<lparr>lender_cashflows := lender_cashflows st @ [0]\<rparr>)"
proof -
  obtain j where k: "k = Suc j" using assms(1) by (cases k) auto
  show ?thesis
    using assms(2,3,4) unfolding k
    by (simp add: loan_state_after_Suc process_month_def)
qed

lemma positive_month_state:
  assumes "1 \<le> k" and "k < length cfs" and "0 < cfs ! k"
      and "monthly_interest_rate rnd y = FloatRate r"
      and "loan_state_after rnd cfs lp y (k - 1) = Inr st"
  shows "loan_state_after rnd cfs lp y k =
           Inr \<lparr>lender_cashflows = lender_cashflows st @
                  [rnd (rnd (outstanding_principal st * r)
                        + actual_principal_payment rnd lp r (outstanding_principal st) (cfs ! k))],
                outstanding_principal =
                  rnd (outstanding_principal st
                       - actual_principal_payment rnd lp r (outstanding_principal st) (cfs ! k))\<rparr>"
proof -
  obtain j where k: "k = Suc j" using assms(1) by (cases k) auto
  show ?thesis
    using assms(2,3,4,5) unfolding k
    by (simp add: loan_state_after_Suc process_month_def Let_def)
qed

text \<open>The outstanding principal is a float and never negative.\<close>

lemma process_month_outstanding:
  assumes "float_rounding rnd" and "process_month rnd lp rate st f = Inr st'"
      and "0 \<le> outstanding_principal st" and "rnd (outstanding_principal st) = outstanding_principal st"
  shows "0 \<le> outstanding_principal st' \<and> rnd (outstanding_principal st') = outstanding_principal st'"
proof (cases "f \<le> 0")
  case True
  then have "st' = st\<lparr>lender_cashflows := lender_cashflows st @ [0]\<rparr>"
    using assms(2) by (simp add: process_month_def)
  then show ?thesis using assms(3,4) by simp
next
  case False
  then obtain r where "rate = FloatRate r"
    using assms(2) by (cases rate) (simp_all add: process_month_def)
  then have o: "outstanding_principal st' =
      rnd (outstanding_principal st
           - actual_principal_payment rnd lp r (outstanding_principal st) f)"
    using assms(2) False by (auto simp add: process_month_def Let_def)
  have "actual_principal_payment rnd lp r (outstanding_principal st) f \<le> outstanding_principal st"
    by (simp add: actual_principal_payment_def Let_def)
  then have "0 \<le> outstanding_principal st
                   - actual_principal_payment rnd lp r (outstanding_principal st) f"
    by simp
  then have "0 \<le> outstanding_principal st'"
    unfolding o by (rule rounding_nonneg [OF assms(1)])
  moreover have "rnd (outstanding_principal st') = outstanding_principal st'"
    unfolding o by (rule rounding_idem [OF assms(1)])
  ultimately show ?thesis by simp
qed

lemma process_months_outstanding:
  assumes "float_rounding rnd"
  shows "process_months rnd lp rate st flows = Inr st' \<Longrightarrow>
         0 \<le> outstanding_principal st \<Longrightarrow> rnd (outstanding_principal st) = outstanding_principal st \<Longrightarrow>
         0 \<le> outstanding_principal st' \<and> rnd (outstanding_principal st') = outstanding_principal st'"
proof (induction flows arbitrary: st)
  case Nil
  then show ?case by simp
next
  case (Cons f flows)
  from Cons.prems(1) obtain st1 where s1: "process_month rnd lp rate st f = Inr st1"
      and rest: "process_months rnd lp rate st1 flows = Inr st'"
    by (auto split: sum.splits)
  have "0 \<le> outstanding_principal st1 \<and> rnd (outstanding_principal st1) = outstanding_principal st1"
    by (rule process_month_outstanding [OF assms s1 Cons.prems(2,3)])
  then show ?case
    using Cons.IH [OF rest] by simp
qed

lemma outstanding_invariant:
  assumes "float_rounding rnd" and "loan_state_after rnd cfs lp y k = Inr st"
  shows "0 \<le> outstanding_principal st \<and> rnd (outstanding_principal st) = outstanding_principal st"
proof -
  have "0 \<le> outstanding_principal (initial_loan_state rnd cfs lp)"
    by (simp add: initial_loan_state_def Let_def)
  moreover have "rnd (outstanding_principal (initial_loan_state rnd cfs lp))
                 = outstanding_principal (initial_loan_state rnd cfs lp)"
    using rounding_abs [OF assms(1)] by (simp add: initial_loan_state_def Let_def)
  ultimately show ?thesis
    using process_months_outstanding [OF assms(1) assms(2) [unfolded loan_state_after_def]]
    by simp
qed

text \<open>Once the outstanding principal is exactly 0 it stays 0.\<close>

lemma process_month_zero:
  assumes "float_rounding rnd" and "0 < lp" and "outstanding_principal st = 0"
  shows "\<exists>st'. process_month rnd lp (FloatRate r) st f = Inr st' \<and>
               outstanding_principal st' = 0 \<and>
               lender_cashflows st' = lender_cashflows st @ [0]"
proof (cases "f \<le> 0")
  case True
  then show ?thesis using assms(3) by (simp add: process_month_def)
next
  case False
  then have "0 \<le> f * lp" using assms(2) by simp
  then have "0 \<le> rnd (f * lp)" by (rule rounding_nonneg [OF assms(1)])
  then have "0 \<le> rnd (rnd (f * lp))" by (rule rounding_nonneg [OF assms(1)])
  then have "min (rnd (rnd (f * lp))) 0 = 0" by simp
  then have "actual_principal_payment rnd lp r 0 f = 0"
    by (simp add: actual_principal_payment_def Let_def rounding_zero [OF assms(1)])
  then show ?thesis
    using False assms(3)
    by (simp add: process_month_def Let_def rounding_zero [OF assms(1)])
qed

lemma outstanding_stays_zero:
  assumes "float_rounding rnd" and "0 < lp" and "monthly_interest_rate rnd y = FloatRate r"
      and "loan_state_after rnd cfs lp y j = Inr st0" and "outstanding_principal st0 = 0"
  shows "j + d < length cfs \<Longrightarrow>
         \<exists>st. loan_state_after rnd cfs lp y (j + d) = Inr st \<and> outstanding_principal st = 0"
proof (induction d)
  case 0
  then show ?case using assms(4,5) by simp
next
  case (Suc d)
  then obtain st where st: "loan_state_after rnd cfs lp y (j + d) = Inr st"
      and z: "outstanding_principal st = 0"
    by auto
  obtain st' where "process_month rnd lp (FloatRate r) st (cfs ! Suc (j + d)) = Inr st'"
      and "outstanding_principal st' = 0"
    using process_month_zero [OF assms(1,2) z] by blast
  then show ?case
    using Suc.prems st by (simp add: loan_state_after_Suc assms(3))
qed

text \<open>The entry and the principal a month leaves behind, read from the outside.\<close>

lemma loan_state_after_pred:
  assumes "1 \<le> k" and "k < length cfs" and "loan_state_after rnd cfs lp y k = Inr stk"
  shows "\<exists>st. loan_state_after rnd cfs lp y (k - 1) = Inr st"
proof -
  obtain j where k: "k = Suc j" using assms(1) by (cases k) auto
  show ?thesis
    using assms(2,3) unfolding k
    by (cases "loan_state_after rnd cfs lp y j") (simp_all add: loan_state_after_Suc)
qed

lemma grace_month_returned:
  assumes "1 \<le> k" and "k < length cfs" and "cfs ! k \<le> 0"
      and "calculate_lender_cashflows rnd cfs lp y = Inr (lcf, info)"
  shows "lcf ! k = 0"
proof -
  obtain stk where stk: "loan_state_after rnd cfs lp y k = Inr stk"
      and e: "lcf ! k = lender_cashflows stk ! k"
    using calculate_lender_cashflows_returned [OF assms(4,2)] by blast
  obtain st where st: "loan_state_after rnd cfs lp y (k - 1) = Inr st"
    using loan_state_after_pred [OF assms(1,2) stk] by blast
  have "k - 1 < length cfs" using assms(2) by simp
  then have "length (lender_cashflows st) = Suc (k - 1)"
    by (rule length_loan_state_after [OF st])
  then have len: "length (lender_cashflows st) = k"
    using assms(1) by simp
  have "stk = st\<lparr>lender_cashflows := lender_cashflows st @ [0]\<rparr>"
    using grace_month_state [OF assms(1,2,3) st] stk by simp
  then show ?thesis
    using e len by (simp add: nth_append)
qed

lemma grace_month_outstanding:
  assumes "1 \<le> k" and "k < length cfs" and "cfs ! k \<le> 0"
  shows "outstanding_after rnd cfs lp y k = outstanding_after rnd cfs lp y (k - 1)"
proof (cases "loan_state_after rnd cfs lp y (k - 1)")
  case (Inl e)
  obtain j where k: "k = Suc j" using assms(1) by (cases k) auto
  have "loan_state_after rnd cfs lp y k = Inl e"
    using assms(2) Inl unfolding k by (simp add: loan_state_after_Suc)
  then show ?thesis
    using Inl by (simp add: outstanding_after_def)
next
  case (Inr st)
  then show ?thesis
    using grace_month_state [OF assms Inr] by (simp add: outstanding_after_def)
qed

lemma lender_payment_grace:
  assumes "accepted cfs" and "monthly_interest_rate rnd y = FloatRate r"
      and "1 \<le> k" and "k < length cfs" and "cfs ! k \<le> 0"
  shows "lender_payment rnd cfs lp y k = Inr 0"
proof -
  obtain lcf info where c: "calculate_lender_cashflows rnd cfs lp y = Inr (lcf, info)"
    using calculate_lender_cashflows_float [OF assms(1,2)] by blast
  show ?thesis
    using lender_payment_returned [OF c assms(4)] grace_month_returned [OF assms(3,4,5) c]
    by simp
qed

lemma positive_month_payment:
  assumes "accepted cfs" and "monthly_interest_rate rnd y = FloatRate r"
      and "1 \<le> k" and "k < length cfs" and "0 < cfs ! k"
      and "loan_state_after rnd cfs lp y (k - 1) = Inr st"
  shows "lender_payment rnd cfs lp y k =
           Inr (rnd (rnd (outstanding_principal st * r)
                + actual_principal_payment rnd lp r (outstanding_principal st) (cfs ! k))) \<and>
         outstanding_after rnd cfs lp y k =
           Inr (rnd (outstanding_principal st
                - actual_principal_payment rnd lp r (outstanding_principal st) (cfs ! k)))"
proof -
  have "k - 1 < length cfs" using assms(4) by simp
  then have "length (lender_cashflows st) = Suc (k - 1)"
    by (rule length_loan_state_after [OF assms(6)])
  then have len: "length (lender_cashflows st) = k"
    using assms(3) by simp
  note stk = positive_month_state [OF assms(3,4,5,2,6)]
  obtain st' where "loan_state_after rnd cfs lp y k = Inr st'"
      and "lender_payment rnd cfs lp y k = Inr (lender_cashflows st' ! k)"
    using lender_payment_float [OF assms(1,2,4)] by blast
  then show ?thesis
    using stk len by (auto simp add: outstanding_after_def nth_append)
qed

lemma outstanding_after_state:
  "outstanding_after rnd cfs lp y k = Inr v \<longleftrightarrow>
     (\<exists>st. loan_state_after rnd cfs lp y k = Inr st \<and> outstanding_principal st = v)"
  by (cases "loan_state_after rnd cfs lp y k") (auto simp add: outstanding_after_def)

text \<open>The arithmetic of one positive month.\<close>

lemma actual_principal_payment_unfold:
  "actual_principal_payment rnd lp r out f = min (rnd (rnd (f * lp) - rnd (out * r))) out"
  by (simp add: actual_principal_payment_def Let_def)

lemma principal_nonneg:
  assumes "float_rounding rnd" and "0 \<le> out" and "rnd (out * r) \<le> rnd (f * lp)"
  shows "0 \<le> actual_principal_payment rnd lp r out f"
proof -
  have "0 \<le> rnd (f * lp) - rnd (out * r)" using assms(3) by simp
  then have "0 \<le> rnd (rnd (f * lp) - rnd (out * r))"
    by (rule rounding_nonneg [OF assms(1)])
  then show ?thesis
    using assms(2) by (simp add: actual_principal_payment_unfold)
qed

lemma principal_nonpos:
  assumes "float_rounding rnd" and "rnd (f * lp) < rnd (out * r)"
  shows "actual_principal_payment rnd lp r out f \<le> 0"
proof -
  have "rnd (f * lp) - rnd (out * r) \<le> 0" using assms(2) by simp
  then have "rnd (rnd (f * lp) - rnd (out * r)) \<le> 0"
    by (rule rounding_nonpos [OF assms(1)])
  then show ?thesis
    by (simp add: actual_principal_payment_unfold min_def)
qed

lemma outstanding_down:
  assumes "float_rounding rnd" and "rnd out = out" and "0 \<le> p"
  shows "rnd (out - p) \<le> out"
proof -
  have "out - p \<le> out" using assms(3) by simp
  then have "rnd (out - p) \<le> rnd out"
    by (rule rounding_mono [OF assms(1)])
  then show ?thesis using assms(2) by simp
qed

lemma outstanding_up:
  assumes "float_rounding rnd" and "rnd out = out" and "p \<le> 0"
  shows "out \<le> rnd (out - p)"
proof -
  have "out \<le> out - p" using assms(3) by simp
  then have "rnd out \<le> rnd (out - p)"
    by (rule rounding_mono [OF assms(1)])
  then show ?thesis using assms(2) by simp
qed

lemma outstanding_paid_off:
  assumes "float_rounding rnd" and "out \<le> rnd (rnd (f * lp) - rnd (out * r))"
  shows "rnd (out - actual_principal_payment rnd lp r out f) = 0"
proof -
  have "actual_principal_payment rnd lp r out f = out"
    using assms(2) by (simp add: actual_principal_payment_unfold)
  then show ?thesis
    by (simp add: rounding_zero [OF assms(1)])
qed

lemma payment_nonneg:
  assumes "float_rounding rnd" and "0 \<le> out" and "0 \<le> r" and "0 \<le> f * lp"
  shows "0 \<le> rnd (rnd (out * r) + actual_principal_payment rnd lp r out f)"
proof -
  have "0 \<le> out * r" using assms(2,3) by simp
  then have i: "0 \<le> rnd (out * r)"
    by (rule rounding_nonneg [OF assms(1)])
  have mp: "0 \<le> rnd (f * lp)"
    using assms(4) by (rule rounding_nonneg [OF assms(1)])
  have "- rnd (out * r) \<le> rnd (f * lp) - rnd (out * r)" using mp by simp
  then have "rnd (- rnd (out * r)) \<le> rnd (rnd (f * lp) - rnd (out * r))"
    by (rule rounding_mono [OF assms(1)])
  then have "- rnd (out * r) \<le> rnd (rnd (f * lp) - rnd (out * r))"
    by (simp add: rounding_minus [OF assms(1)] rounding_idem [OF assms(1)])
  then have "0 \<le> rnd (out * r) + actual_principal_payment rnd lp r out f"
    using i assms(2) by (simp add: actual_principal_payment_unfold min_def)
  then show ?thesis
    by (rule rounding_nonneg [OF assms(1)])
qed

lemma payment_upper:
  assumes "float_rounding rnd"
  shows "rnd (rnd (out * r) + actual_principal_payment rnd lp r out f)
           \<le> rnd (rnd (out * r) + rnd (rnd (f * lp) - rnd (out * r)))"
proof -
  have "rnd (out * r) + actual_principal_payment rnd lp r out f
          \<le> rnd (out * r) + rnd (rnd (f * lp) - rnd (out * r))"
    by (simp add: actual_principal_payment_unfold)
  then show ?thesis
    by (rule rounding_mono [OF assms])
qed

subsection \<open>Grace months\<close>

text \<open>
  C3 fails as stated for a yearly interest rate below \<open>-1\<close>: the monthly rate is then a
  complex number and the first month with a positive flow raises \<^verbatim>\<open>TypeError\<close>, so no
  payment is recorded for a later month without flow.  With the accepted input
  \<open>[-1000, 100, 0]\<close> and the yearly rate \<open>-2\<close>, month 2 has no flow, and the call raises.
\<close>

theorem grace_month_complex_rate_counterexample:
  "accepted [- 1000, 100, 0] \<and> [- 1000, 100, 0 :: real] ! 2 \<le> 0 \<and>
   monthly_interest_rate exact_arithmetic (- 2) = ComplexRate \<and>
   calculate_lender_cashflows exact_arithmetic [- 1000, 100, 0] (4 / 5) (- 2) = Inl TypeError \<and>
   lender_payment exact_arithmetic [- 1000, 100, 0] (4 / 5) (- 2) 2 = Inl TypeError \<and>
   lender_payment exact_arithmetic [- 1000, 100, 0] (4 / 5) (- 2) 2 \<noteq> Inr 0"
proof -
  have r: "monthly_interest_rate exact_arithmetic (- 2) = ComplexRate"
    by (rule monthly_interest_rate_exact_complex) simp
  have c: "calculate_lender_cashflows exact_arithmetic [- 1000, 100, 0] (4 / 5) (- 2)
           = Inl TypeError"
    by (simp add: calculate_lender_cashflows_def r process_month_def)
  show ?thesis
    using r c by (simp add: accepted_def lender_payment_def)
qed

text \<open>
  C3, amended.  For every accepted cash-flow vector and every month \<open>k \<ge> 1\<close> whose flow
  is not positive: when the yearly interest rate is at least \<open>-1\<close>, the lender payment
  recorded for month \<open>k\<close> is exactly 0 and the outstanding principal after month \<open>k\<close> is
  the one before it; for every yearly interest rate, every list the function returns
  holds exactly 0 for month \<open>k\<close>, and the loop leaves the outstanding principal as it
  was before month \<open>k\<close>.
\<close>

theorem grace_month_no_payment_no_principal_change:
  assumes "accepted cfs" and "1 \<le> k" and "k < length cfs" and "cfs ! k \<le> 0"
  shows "(float_rounding rnd \<and> - 1 \<le> y \<longrightarrow>
            lender_payment rnd cfs lp y k = Inr 0 \<and>
            (\<exists>v. outstanding_after rnd cfs lp y (k - 1) = Inr v \<and>
                 outstanding_after rnd cfs lp y k = Inr v)) \<and>
         (\<forall>lcf info. calculate_lender_cashflows rnd cfs lp y = Inr (lcf, info) \<longrightarrow>
            lcf ! k = 0) \<and>
         outstanding_after rnd cfs lp y k = outstanding_after rnd cfs lp y (k - 1)"
proof -
  have same: "outstanding_after rnd cfs lp y k = outstanding_after rnd cfs lp y (k - 1)"
    by (rule grace_month_outstanding [OF assms(2,3,4)])
  have returned: "\<forall>lcf info. calculate_lender_cashflows rnd cfs lp y = Inr (lcf, info) \<longrightarrow>
            lcf ! k = 0"
    using grace_month_returned [OF assms(2,3,4)] by blast
  have float: "float_rounding rnd \<and> - 1 \<le> y \<longrightarrow>
            lender_payment rnd cfs lp y k = Inr 0 \<and>
            (\<exists>v. outstanding_after rnd cfs lp y (k - 1) = Inr v \<and>
                 outstanding_after rnd cfs lp y k = Inr v)"
  proof
    assume h: "float_rounding rnd \<and> - 1 \<le> y"
    then obtain r where r: "monthly_interest_rate rnd y = FloatRate r"
      using monthly_interest_rate_float by blast
    have pay: "lender_payment rnd cfs lp y k = Inr 0"
      by (rule lender_payment_grace [OF assms(1) r assms(2,3,4)])
    obtain st where "loan_state_after rnd cfs lp y (k - 1) = Inr st"
      using loan_state_after_float [OF r] by blast
    then have "outstanding_after rnd cfs lp y (k - 1) = Inr (outstanding_principal st)"
      by (simp add: outstanding_after_def)
    then show "lender_payment rnd cfs lp y k = Inr 0 \<and>
            (\<exists>v. outstanding_after rnd cfs lp y (k - 1) = Inr v \<and>
                 outstanding_after rnd cfs lp y k = Inr v)"
      using pay same by simp
  qed
  show ?thesis
    using float returned same by blast
qed

theorem grace_month_witness:
  "accepted [- 1000, 100, 0] \<and> (1::nat) \<le> 2 \<and> 2 < length [- 1000, 100, 0 :: real] \<and>
   [- 1000, 100, 0 :: real] ! 2 \<le> 0 \<and>
   float_rounding exact_arithmetic \<and> (- 1 :: real) \<le> 4 / 25 \<and>
   lender_payment exact_arithmetic [- 1000, 100, 0] (4 / 5) (4 / 25) 2 = Inr 0 \<and>
   outstanding_after exact_arithmetic [- 1000, 100, 0] (4 / 5) (4 / 25) 2 =
     outstanding_after exact_arithmetic [- 1000, 100, 0] (4 / 5) (4 / 25) (2 - 1)"
proof -
  have a: "accepted [- 1000, 100, 0]" by (simp add: accepted_def)
  have b: "(1::nat) \<le> 2" by simp
  have c: "2 < length [- 1000, 100, 0 :: real]" by simp
  have d: "[- 1000, 100, 0 :: real] ! 2 \<le> 0" by simp
  have e: "float_rounding exact_arithmetic" by (rule float_rounding_exact_arithmetic)
  have f: "(- 1 :: real) \<le> 4 / 25" by simp
  show ?thesis
    using a b c d e f
      grace_month_no_payment_no_principal_change [OF a b c d, of exact_arithmetic "4 / 25" "4 / 5"]
    by blast
qed

subsection \<open>Months with a positive flow\<close>

text \<open>
  C1 fails as stated: the code takes \<open>min (maxPayment - interest) outstanding\<close> and
  never clamps it at 0.  With the default parameters and the accepted input
  \<open>[-1000, 1]\<close>, the interest on 800 (more than 0.8) exceeds the maximal payment 0.8,
  the principal payment of month 1 is negative and the outstanding principal grows.
  The margin, more than 9, is far above any rounding error.
\<close>

theorem principal_payment_not_clamped_counterexample:
  "accepted [- 1000, 1] \<and> 0 < [- 1000, 1 :: real] ! 1 \<and>
   monthly_interest_rate exact_arithmetic (4 / 25) = FloatRate ((29 / 25) powr (1 / 12) - 1) \<and>
   outstanding_after exact_arithmetic [- 1000, 1] (4 / 5) (4 / 25) 0 = Inr 800 \<and>
   [- 1000, 1 :: real] ! 1 * (4 / 5) < 800 * ((29 / 25) powr (1 / 12) - 1) \<and>
   actual_principal_payment exact_arithmetic (4 / 5) ((29 / 25) powr (1 / 12) - 1) 800
     ([- 1000, 1] ! 1) < 0 \<and>
   outstanding_after exact_arithmetic [- 1000, 1] (4 / 5) (4 / 25) 1 =
     Inr (800 - actual_principal_payment exact_arithmetic (4 / 5)
                  ((29 / 25) powr (1 / 12) - 1) 800 ([- 1000, 1] ! 1)) \<and>
   (800::real) < 800 - actual_principal_payment exact_arithmetic (4 / 5)
                  ((29 / 25) powr (1 / 12) - 1) 800 ([- 1000, 1] ! 1)"
proof -
  let ?r = "(29 / 25) powr (1 / 12) - 1 :: real"
  have low: "1 / 1000 < ?r" by (rule default_rate_lower)
  have rate: "monthly_interest_rate exact_arithmetic (4 / 25) = FloatRate ?r"
    using monthly_interest_rate_exact [of "4 / 25"] by simp
  have a: "accepted [- 1000, 1]" by (simp add: accepted_def)
  have s0: "loan_state_after exact_arithmetic [- 1000, 1] (4 / 5) (4 / 25) (1 - 1) =
            Inr \<lparr>lender_cashflows = [- 800], outstanding_principal = 800\<rparr>"
    by (simp add: loan_state_after_def initial_loan_state_def exact_arithmetic_def)
  then have o0: "outstanding_after exact_arithmetic [- 1000, 1] (4 / 5) (4 / 25) 0 = Inr 800"
    by (simp add: outstanding_after_def)
  have p: "actual_principal_payment exact_arithmetic (4 / 5) ?r 800 1 = min (4 / 5 - 800 * ?r) 800"
    by (simp add: actual_principal_payment_unfold exact_arithmetic_def)
  have neg: "min (4 / 5 - 800 * ?r) 800 < 0"
    using low by (simp add: min_def)
  have o1: "outstanding_after exact_arithmetic [- 1000, 1] (4 / 5) (4 / 25) 1 =
            Inr (800 - actual_principal_payment exact_arithmetic (4 / 5) ?r 800 1)"
  proof -
    have b: "(1::nat) \<le> 1" by simp
    have c: "1 < length [- 1000, 1 :: real]" by simp
    have d: "0 < [- 1000, 1 :: real] ! 1" by simp
    show ?thesis
      using positive_month_payment [OF a rate b c d s0]
      by (simp add: exact_arithmetic_def)
  qed
  show ?thesis
    using low rate a o0 neg o1 p by simp
qed

text \<open>
  C1, amended.  For every accepted cash-flow vector, every yearly interest rate of at
  least \<open>-1\<close> and every month \<open>k \<ge> 1\<close> with a positive flow: the principal payment is
  \<open>min (maxPayment - interest) outstanding\<close> with no clamp at 0, the payment recorded is
  interest plus principal payment, and the outstanding principal after the month is the
  one before it minus the principal payment.  When the interest is at most \<open>maxPayment\<close>
  the principal payment is not negative and the outstanding principal does not
  increase; when the interest exceeds \<open>maxPayment\<close> the principal payment is not
  positive and the outstanding principal does not decrease.  The outstanding principal
  is exactly 0 after a month whose available principal payment \<open>maxPayment - interest\<close>
  is at least the outstanding principal.  All operations are rounded.
\<close>

theorem principal_payment_and_outstanding:
  assumes "float_rounding rnd" and "accepted cfs" and "- 1 \<le> y"
      and "1 \<le> k" and "k < length cfs" and "0 < cfs ! k"
  shows "\<exists>r out. monthly_interest_rate rnd y = FloatRate r \<and>
           outstanding_after rnd cfs lp y (k - 1) = Inr out \<and> 0 \<le> out \<and>
           actual_principal_payment rnd lp r out (cfs ! k) =
             min (rnd (rnd (cfs ! k * lp) - rnd (out * r))) out \<and>
           lender_payment rnd cfs lp y k =
             Inr (rnd (rnd (out * r) + actual_principal_payment rnd lp r out (cfs ! k))) \<and>
           outstanding_after rnd cfs lp y k =
             Inr (rnd (out - actual_principal_payment rnd lp r out (cfs ! k))) \<and>
           (rnd (out * r) \<le> rnd (cfs ! k * lp) \<longrightarrow>
              0 \<le> actual_principal_payment rnd lp r out (cfs ! k) \<and>
              rnd (out - actual_principal_payment rnd lp r out (cfs ! k)) \<le> out) \<and>
           (rnd (cfs ! k * lp) < rnd (out * r) \<longrightarrow>
              actual_principal_payment rnd lp r out (cfs ! k) \<le> 0 \<and>
              out \<le> rnd (out - actual_principal_payment rnd lp r out (cfs ! k))) \<and>
           (out \<le> rnd (rnd (cfs ! k * lp) - rnd (out * r)) \<longrightarrow>
              rnd (out - actual_principal_payment rnd lp r out (cfs ! k)) = 0)"
proof -
  obtain r where r: "monthly_interest_rate rnd y = FloatRate r"
    using monthly_interest_rate_float [OF assms(1,3)] by blast
  obtain st where st: "loan_state_after rnd cfs lp y (k - 1) = Inr st"
    using loan_state_after_float [OF r] by blast
  let ?out = "outstanding_principal st"
  let ?p = "actual_principal_payment rnd lp r ?out (cfs ! k)"
  have inv: "0 \<le> ?out" and fl: "rnd ?out = ?out"
    using outstanding_invariant [OF assms(1) st] by simp_all
  have o: "outstanding_after rnd cfs lp y (k - 1) = Inr ?out"
    using st by (simp add: outstanding_after_def)
  have pay: "lender_payment rnd cfs lp y k = Inr (rnd (rnd (?out * r) + ?p))"
      and after: "outstanding_after rnd cfs lp y k = Inr (rnd (?out - ?p))"
    using positive_month_payment [OF assms(2) r assms(4,5,6) st] by simp_all
  have pp: "?p = min (rnd (rnd (cfs ! k * lp) - rnd (?out * r))) ?out"
    by (rule actual_principal_payment_unfold)
  have down: "rnd (?out * r) \<le> rnd (cfs ! k * lp) \<longrightarrow> 0 \<le> ?p \<and> rnd (?out - ?p) \<le> ?out"
  proof
    assume "rnd (?out * r) \<le> rnd (cfs ! k * lp)"
    then have "0 \<le> ?p" by (rule principal_nonneg [OF assms(1) inv])
    then show "0 \<le> ?p \<and> rnd (?out - ?p) \<le> ?out"
      using outstanding_down [OF assms(1) fl] by simp
  qed
  have up: "rnd (cfs ! k * lp) < rnd (?out * r) \<longrightarrow> ?p \<le> 0 \<and> ?out \<le> rnd (?out - ?p)"
  proof
    assume "rnd (cfs ! k * lp) < rnd (?out * r)"
    then have "?p \<le> 0" by (rule principal_nonpos [OF assms(1)])
    then show "?p \<le> 0 \<and> ?out \<le> rnd (?out - ?p)"
      using outstanding_up [OF assms(1) fl] by simp
  qed
  have zero: "?out \<le> rnd (rnd (cfs ! k * lp) - rnd (?out * r)) \<longrightarrow> rnd (?out - ?p) = 0"
    using outstanding_paid_off [OF assms(1)] by blast
  show ?thesis
    using r o inv pp pay after down up zero by blast
qed

theorem principal_payment_and_outstanding_witness:
  "float_rounding exact_arithmetic \<and> accepted [- 1000, 2000] \<and> (- 1 :: real) \<le> 0 \<and>
   (1::nat) \<le> 1 \<and> 1 < length [- 1000, 2000 :: real] \<and> 0 < [- 1000, 2000 :: real] ! 1 \<and>
   monthly_interest_rate exact_arithmetic 0 = FloatRate 0 \<and>
   outstanding_after exact_arithmetic [- 1000, 2000] (4 / 5) 0 (1 - 1) = Inr 800 \<and>
   actual_principal_payment exact_arithmetic (4 / 5) 0 800 2000 = 800 \<and>
   lender_payment exact_arithmetic [- 1000, 2000] (4 / 5) 0 1 = Inr 800 \<and>
   outstanding_after exact_arithmetic [- 1000, 2000] (4 / 5) 0 1 = Inr 0"
proof -
  have e: "float_rounding exact_arithmetic" by (rule float_rounding_exact_arithmetic)
  have a: "accepted [- 1000, 2000]" by (simp add: accepted_def)
  have y: "(- 1 :: real) \<le> 0" by simp
  have b: "(1::nat) \<le> 1" by simp
  have c: "1 < length [- 1000, 2000 :: real]" by simp
  have d: "0 < [- 1000, 2000 :: real] ! 1" by simp
  have rate: "monthly_interest_rate exact_arithmetic 0 = FloatRate 0"
    using monthly_interest_rate_exact [of 0] by simp
  have o0: "outstanding_after exact_arithmetic [- 1000, 2000] (4 / 5) 0 (1 - 1) = Inr 800"
    by (simp add: outstanding_after_def loan_state_after_def initial_loan_state_def
        exact_arithmetic_def)
  have p: "actual_principal_payment exact_arithmetic (4 / 5) 0 800 2000 = 800"
    by (simp add: actual_principal_payment_unfold exact_arithmetic_def)
  obtain r out where r: "monthly_interest_rate exact_arithmetic 0 = FloatRate r"
      and o: "outstanding_after exact_arithmetic [- 1000, 2000] (4 / 5) 0 (1 - 1) = Inr out"
      and pay: "lender_payment exact_arithmetic [- 1000, 2000] (4 / 5) 0 1 =
             Inr (exact_arithmetic (exact_arithmetic (out * r)
                + actual_principal_payment exact_arithmetic (4 / 5) r out ([- 1000, 2000] ! 1)))"
      and after: "outstanding_after exact_arithmetic [- 1000, 2000] (4 / 5) 0 1 =
             Inr (exact_arithmetic
                (out - actual_principal_payment exact_arithmetic (4 / 5) r out ([- 1000, 2000] ! 1)))"
    using principal_payment_and_outstanding [OF e a y b c d, of "4 / 5"] by blast
  have r0: "r = 0" using r rate by simp
  have out: "out = 800" using o o0 by simp
  have "lender_payment exact_arithmetic [- 1000, 2000] (4 / 5) 0 1 = Inr 800"
    using pay p unfolding r0 out by (simp add: exact_arithmetic_def)
  moreover have "outstanding_after exact_arithmetic [- 1000, 2000] (4 / 5) 0 1 = Inr 0"
    using after p unfolding r0 out by (simp add: exact_arithmetic_def)
  ultimately show ?thesis
    using e a rate o0 p by simp
qed

subsection \<open>Bounds on the lender payments\<close>

text \<open>
  C10 fails as stated for a month with a negative flow: the payment recorded is 0,
  which is above \<open>loanPercentage * flow\<close>.  The accepted input \<open>[-1000, -5]\<close> with the
  default parameters records 0 for month 1, while \<open>0.8 * (-5) = -4\<close>.
\<close>

theorem payment_interval_negative_flow_counterexample:
  "accepted [- 1000, - 5] \<and> (0::real) < 4 / 5 \<and> (0::real) \<le> 4 / 25 \<and>
   lender_payment exact_arithmetic [- 1000, - 5] (4 / 5) (4 / 25) 1 = Inr 0 \<and>
   \<not> ((0::real) \<le> 0 \<and> (0::real) \<le> 4 / 5 * [- 1000, - 5] ! 1)"
proof -
  have a: "accepted [- 1000, - 5]" by (simp add: accepted_def)
  have rate: "monthly_interest_rate exact_arithmetic (4 / 25)
              = FloatRate ((1 + 4 / 25) powr (1 / 12) - 1)"
    by (rule monthly_interest_rate_exact) simp
  have "lender_payment exact_arithmetic [- 1000, - 5] (4 / 5) (4 / 25) 1 = Inr 0"
    by (rule lender_payment_grace [OF a rate]) simp_all
  then show ?thesis
    using a by simp
qed

text \<open>
  C10, amended.  For every accepted input with \<open>loanPercentage > 0\<close> and
  \<open>yearlyInterestRate \<ge> 0\<close> and every month \<open>k \<ge> 1\<close>: if the flow of the month is not
  negative, the lender payment is not negative; if the flow is positive, the lender
  payment is at most the rounded sum of the interest and the rounded difference
  \<open>maxPayment - interest\<close>, where \<open>maxPayment\<close> is the rounded product
  \<open>flow * loanPercentage\<close> (without rounding error this sum is \<open>maxPayment\<close>); if the
  flow is not positive, the lender payment is exactly 0; and if the outstanding
  principal is exactly 0 after some earlier month, the lender payment is exactly 0.
\<close>

theorem lender_payment_bounds:
  assumes "float_rounding rnd" and "accepted cfs" and "0 < lp" and "0 \<le> y"
      and "1 \<le> k" and "k < length cfs"
  shows "(0 \<le> cfs ! k \<longrightarrow> (\<exists>p. lender_payment rnd cfs lp y k = Inr p \<and> 0 \<le> p)) \<and>
         (0 < cfs ! k \<longrightarrow>
            (\<exists>r out p. monthly_interest_rate rnd y = FloatRate r \<and>
               outstanding_after rnd cfs lp y (k - 1) = Inr out \<and>
               lender_payment rnd cfs lp y k = Inr p \<and>
               p \<le> rnd (rnd (out * r) + rnd (rnd (cfs ! k * lp) - rnd (out * r))))) \<and>
         (cfs ! k \<le> 0 \<longrightarrow> lender_payment rnd cfs lp y k = Inr 0) \<and>
         (\<forall>j<k. outstanding_after rnd cfs lp y j = Inr 0 \<longrightarrow>
                 lender_payment rnd cfs lp y k = Inr 0)"
proof -
  have "- 1 \<le> y" using assms(4) by simp
  then obtain r where r: "monthly_interest_rate rnd y = FloatRate r"
    using monthly_interest_rate_float [OF assms(1)] by blast
  have rpos: "0 \<le> r"
    by (rule monthly_interest_rate_nonneg [OF assms(1,4) r])
  obtain st where st: "loan_state_after rnd cfs lp y (k - 1) = Inr st"
    using loan_state_after_float [OF r] by blast
  let ?out = "outstanding_principal st"
  let ?f = "cfs ! k"
  let ?p = "actual_principal_payment rnd lp r ?out ?f"
  have inv: "0 \<le> ?out"
    using outstanding_invariant [OF assms(1) st] by simp
  have o: "outstanding_after rnd cfs lp y (k - 1) = Inr ?out"
    using st by (simp add: outstanding_after_def)
  have nonpos: "?f \<le> 0 \<Longrightarrow> lender_payment rnd cfs lp y k = Inr 0"
    by (rule lender_payment_grace [OF assms(2) r assms(5,6)])
  have pos: "0 < ?f \<Longrightarrow> lender_payment rnd cfs lp y k = Inr (rnd (rnd (?out * r) + ?p))"
    using positive_month_payment [OF assms(2) r assms(5,6) _ st] by simp
  have first: "0 \<le> ?f \<longrightarrow> (\<exists>p. lender_payment rnd cfs lp y k = Inr p \<and> 0 \<le> p)"
  proof
    assume nn: "0 \<le> ?f"
    show "\<exists>p. lender_payment rnd cfs lp y k = Inr p \<and> 0 \<le> p"
    proof (cases "?f = 0")
      case True
      then show ?thesis using nonpos by simp
    next
      case False
      then have p: "0 < ?f" using nn by simp
      then have "0 \<le> ?f * lp" using assms(3) by simp
      then have "0 \<le> rnd (rnd (?out * r) + ?p)"
        by (rule payment_nonneg [OF assms(1) inv rpos])
      then show ?thesis using pos [OF p] by blast
    qed
  qed
  have second: "0 < ?f \<longrightarrow>
            (\<exists>r out p. monthly_interest_rate rnd y = FloatRate r \<and>
               outstanding_after rnd cfs lp y (k - 1) = Inr out \<and>
               lender_payment rnd cfs lp y k = Inr p \<and>
               p \<le> rnd (rnd (out * r) + rnd (rnd (?f * lp) - rnd (out * r))))"
    using r o pos payment_upper [OF assms(1)] by blast
  have third: "\<forall>j<k. outstanding_after rnd cfs lp y j = Inr 0 \<longrightarrow>
                 lender_payment rnd cfs lp y k = Inr 0"
  proof (intro allI impI)
    fix j
    assume j: "j < k" and z: "outstanding_after rnd cfs lp y j = Inr 0"
    obtain st0 where st0: "loan_state_after rnd cfs lp y j = Inr st0"
        and z0: "outstanding_principal st0 = 0"
      using z by (auto simp add: outstanding_after_state)
    have "j + (k - 1 - j) < length cfs" using j assms(6) by simp
    then obtain st1 where "loan_state_after rnd cfs lp y (j + (k - 1 - j)) = Inr st1"
        and "outstanding_principal st1 = 0"
      using outstanding_stays_zero [OF assms(1,3) r st0 z0] by blast
    moreover have "j + (k - 1 - j) = k - 1" using j by simp
    ultimately have pz: "?out = 0" using st by simp
    show "lender_payment rnd cfs lp y k = Inr 0"
    proof (cases "?f \<le> 0")
      case True
      then show ?thesis by (rule nonpos)
    next
      case False
      then have p: "0 < ?f" by simp
      then have "0 \<le> ?f * lp" using assms(3) by simp
      then have "0 \<le> rnd (?f * lp)" by (rule rounding_nonneg [OF assms(1)])
      then have "0 \<le> rnd (rnd (?f * lp))" by (rule rounding_nonneg [OF assms(1)])
      then have "actual_principal_payment rnd lp r 0 ?f = 0"
        by (simp add: actual_principal_payment_unfold rounding_zero [OF assms(1)])
      then show ?thesis
        using pos [OF p] by (simp add: pz rounding_zero [OF assms(1)])
    qed
  qed
  show ?thesis
    using first second nonpos third by blast
qed

theorem lender_payment_bounds_witness:
  "float_rounding exact_arithmetic \<and> accepted [- 1000, 2000, 50] \<and> (0::real) < 4 / 5 \<and>
   (0::real) \<le> 0 \<and> (1::nat) \<le> 2 \<and> 2 < length [- 1000, 2000, 50 :: real] \<and>
   0 \<le> [- 1000, 2000, 50 :: real] ! 2 \<and>
   outstanding_after exact_arithmetic [- 1000, 2000, 50] (4 / 5) 0 1 = Inr 0 \<and>
   lender_payment exact_arithmetic [- 1000, 2000, 50] (4 / 5) 0 2 = Inr 0"
proof -
  have f: "float_rounding exact_arithmetic" by (rule float_rounding_exact_arithmetic)
  have a: "accepted [- 1000, 2000, 50]" by (simp add: accepted_def)
  have b: "(0::real) < 4 / 5" by simp
  have c: "(0::real) \<le> 0" by simp
  have d: "(1::nat) \<le> 2" by simp
  have e: "2 < length [- 1000, 2000, 50 :: real]" by simp
  have rate: "monthly_interest_rate exact_arithmetic 0 = FloatRate 0"
    using monthly_interest_rate_exact [of 0] by simp
  have z: "outstanding_after exact_arithmetic [- 1000, 2000, 50] (4 / 5) 0 1 = Inr 0"
    by (simp add: outstanding_after_def loan_state_after_def initial_loan_state_def
        process_month_def actual_principal_payment_unfold rate exact_arithmetic_def Let_def)
  have "\<forall>j<2. outstanding_after exact_arithmetic [- 1000, 2000, 50] (4 / 5) 0 j = Inr 0 \<longrightarrow>
          lender_payment exact_arithmetic [- 1000, 2000, 50] (4 / 5) 0 2 = Inr 0"
    using lender_payment_bounds [OF f a b c d e] by blast
  then have "lender_payment exact_arithmetic [- 1000, 2000, 50] (4 / 5) 0 2 = Inr 0"
    using z by (metis one_less_numeral_iff semiring_norm(76))
  then show ?thesis
    using f a z by simp
qed

section \<open>Properties of the CohortCashFlowProjector\<close>

lemma next_revenue_cases:
  "next_revenue p c = (case (p, c) of (Some r, Some v) \<Rightarrow> Some (r * v) | _ \<Rightarrow> None)"
  by (cases p; cases c) (simp_all add: next_revenue_def)

lemma gross_profit_of_map_option:
  "gross_profit_of gm r = map_option (\<lambda>r. r * gm) r"
  by (cases r) (simp_all add: gross_profit_of_def)

lemma gross_profit_loop_Suc:
  "1 \<le> n \<Longrightarrow>
   gross_profit_loop sm ratio gm curve (Suc n) =
     gross_profit_month gm curve (gross_profit_loop sm ratio gm curve n) n"
  by (simp add: gross_profit_loop_def)

text \<open>
  After the months below \<open>n\<close>, \<^verbatim>\<open>prev_revenue\<close> is the revenue of month \<open>n\<close> and the
  columns are the gross profits of months \<open>1..n\<close>.
\<close>

lemma gross_profit_loop_spec:
  "1 \<le> n \<Longrightarrow>
   gross_profit_loop sm ratio gm curve n =
     (spec_revenue sm ratio curve n, map (spec_gross_profit sm ratio gm curve) [1..<Suc n])"
proof (induction n rule: nat_induct_at_least)
  case base
  show ?case
    by (simp add: gross_profit_loop_def sm_ratio_def spec_gross_profit_def
        gross_profit_of_map_option)
next
  case (Suc n)
  obtain m where m: "n = Suc m" using Suc.hyps by (cases n) auto
  have "gross_profit_loop sm ratio gm curve (Suc n) =
        gross_profit_month gm curve (gross_profit_loop sm ratio gm curve n) n"
    by (rule gross_profit_loop_Suc [OF Suc.hyps])
  also have "\<dots> = gross_profit_month gm curve
       (spec_revenue sm ratio curve n, map (spec_gross_profit sm ratio gm curve) [1..<Suc n]) n"
    by (simp only: Suc.IH)
  also have "\<dots> = (spec_revenue sm ratio curve (Suc n),
       map (spec_gross_profit sm ratio gm curve) [1..<Suc (Suc n)])"
    unfolding m
    by (simp add: gross_profit_month_def Let_def next_revenue_cases gross_profit_of_map_option
        spec_gross_profit_def)
  finally show ?case .
qed

text \<open>
  C6 fails as stated in the first month: for a ratio of 0 the code's month-1 revenue is
  null, not 0, and for a negative ratio it is \<open>spend / ratio\<close>, not 0.
\<close>

theorem first_revenue_nonpositive_ratio_counterexample:
  "(0::real) \<le> 0 \<and> sm_ratio 100 0 = None \<and> spec_first_revenue 100 0 = Some 0 \<and>
   (- 2 :: real) \<le> 0 \<and> sm_ratio 100 (- 2) = Some (- 50) \<and>
   spec_first_revenue 100 (- 2) = Some 0 \<and>
   fst (gross_profit_loop 100 0 (1 / 2) (replicate 60 (Some 1)) 1) \<noteq> spec_first_revenue 100 0 \<and>
   fst (gross_profit_loop 100 (- 2) (1 / 2) (replicate 60 (Some 1)) 1)
     \<noteq> spec_first_revenue 100 (- 2)"
  by (simp add: sm_ratio_def spec_first_revenue_def gross_profit_loop_def)

text \<open>
  C6, amended.  For every \<open>(spend, ratio)\<close> pair, gross margin and 60-entry retention
  curve: \<open>revenue[1] = spend / ratio\<close> when the ratio is not 0 and null when it is 0;
  for months \<open>n = 2..60\<close>, \<open>revenue[n] = revenue[n-1] * curve[n]\<close> when both operands
  are non-null and null otherwise, so a null propagates to all later months; the
  gross profit of a month is its revenue times the gross margin (null when the revenue
  is null); and the emitted cash-flow vector is \<open>[-spend]\<close> followed by the 60 gross
  profits with null replaced by 0.
\<close>

theorem build_gross_profit_row_spec:
  assumes "length curve = 60"
  shows "\<exists>row. build_gross_profit_row spend ratio gm curve = Inr row \<and>
           gross_profit_columns row = map (spec_gross_profit spend ratio gm curve) [1..<61] \<and>
           cash_flow row =
             (- spend) # map (\<lambda>n. case spec_gross_profit spend ratio gm curve n of
                                     None \<Rightarrow> 0 | Some g \<Rightarrow> g) [1..<61] \<and>
           length (cash_flow row) = 61 \<and>
           (\<forall>n. 1 \<le> n \<and> n \<le> 60 \<longrightarrow>
                fst (gross_profit_loop spend ratio gm curve n) = spec_revenue spend ratio curve n) \<and>
           (\<forall>n m. 1 \<le> n \<and> n \<le> m \<and> spec_revenue spend ratio curve n = None \<longrightarrow>
                spec_revenue spend ratio curve m = None)"
proof -
  have cols: "snd (gross_profit_loop spend ratio gm curve 60) =
              map (spec_gross_profit spend ratio gm curve) [1..<61]"
    by (simp add: gross_profit_loop_spec)
  have none: "spec_revenue spend ratio curve n = None \<Longrightarrow>
              spec_revenue spend ratio curve (n + d) = None" if n1: "1 \<le> n" for n d
  proof (induction d)
    case 0
    then show ?case by simp
  next
    case (Suc d)
    obtain j where "n + d = Suc j" using n1 by (cases "n + d") auto
    then show ?case using Suc by simp
  qed
  have propagate: "\<forall>n m. 1 \<le> n \<and> n \<le> m \<and> spec_revenue spend ratio curve n = None \<longrightarrow>
                spec_revenue spend ratio curve m = None"
  proof (intro allI impI)
    fix n m
    assume h: "1 \<le> n \<and> n \<le> m \<and> spec_revenue spend ratio curve n = None"
    then have "spec_revenue spend ratio curve (n + (m - n)) = None"
      using none [of n "m - n"] by simp
    then show "spec_revenue spend ratio curve m = None" using h by simp
  qed
  have cf: "map (\<lambda>gp. if gp \<noteq> None then the gp else 0)
              (map (spec_gross_profit spend ratio gm curve) [1..<61]) =
            map (\<lambda>n. case spec_gross_profit spend ratio gm curve n of
                         None \<Rightarrow> 0 | Some g \<Rightarrow> g) [1..<61]"
    by (simp add: comp_def option.case_eq_if del: upt_Suc)
  show ?thesis
    using assms cols cf propagate
    by (simp add: build_gross_profit_row_def Let_def gross_profit_loop_spec del: upt_Suc)
qed

theorem build_gross_profit_row_spec_witness:
  "length (replicate 60 (Some (1 / 2 :: real))) = 60 \<and>
   (\<exists>row. build_gross_profit_row 100 4 (1 / 2) (replicate 60 (Some (1 / 2))) = Inr row \<and>
          gross_profit_columns row =
            map (spec_gross_profit 100 4 (1 / 2) (replicate 60 (Some (1 / 2)))) [1..<61] \<and>
          length (cash_flow row) = 61) \<and>
   spec_revenue 100 4 (replicate 60 (Some (1 / 2))) 2 = Some (25 / 2)"
proof -
  have a: "length (replicate 60 (Some (1 / 2 :: real))) = 60" by simp
  have "spec_revenue 100 4 (replicate 60 (Some (1 / 2))) (Suc (Suc 0)) = Some (25 / 2)"
    by simp
  then have b: "spec_revenue 100 4 (replicate 60 (Some (1 / 2))) 2 = Some (25 / 2)"
    by (simp add: numeral_2_eq_2)
  show ?thesis
    using a b build_gross_profit_row_spec [OF a, of 100 4 "1 / 2"] by blast
qed

section \<open>Properties of the HistoricalRatioModel\<close>

lemma ratio_step_month_ratio:
  "ratio_step sm rv st m = (fst st @ [month_ratio sm rv m], (snd st)(m \<mapsto> month_ratio sm rv m))"
  by (cases "revenue_get rv m")
     (simp_all add: ratio_step_def month_ratio_def revenue_positive_def revenue_or_0_def Let_def)

lemma foldl_ratio_step:
  "foldl (ratio_step sm rv) (acc, mp) ms =
     (acc @ map (month_ratio sm rv) ms,
      (\<lambda>m. if m \<in> set ms then Some (month_ratio sm rv m) else mp m))"
proof (induction ms arbitrary: acc mp)
  case Nil
  then show ?case by simp
next
  case (Cons a ms)
  have "foldl (ratio_step sm rv) (acc, mp) (a # ms) =
        foldl (ratio_step sm rv)
          (acc @ [month_ratio sm rv a], mp(a \<mapsto> month_ratio sm rv a)) ms"
    by (simp only: foldl_Cons ratio_step_month_ratio fst_conv snd_conv)
  also have "\<dots> = ((acc @ [month_ratio sm rv a]) @ map (month_ratio sm rv) ms,
      (\<lambda>m. if m \<in> set ms then Some (month_ratio sm rv m)
           else (mp(a \<mapsto> month_ratio sm rv a)) m))"
    by (rule Cons.IH)
  also have "\<dots> = (acc @ map (month_ratio sm rv) (a # ms),
      (\<lambda>m. if m \<in> set (a # ms) then Some (month_ratio sm rv m) else mp m))"
    by (simp add: fun_eq_iff)
  finally show ?case .
qed

lemma all_months_of_props:
  "set (all_months_of sm rv) = history_months sm rv"
  "distinct (all_months_of sm rv)"
  "sorted (all_months_of sm rv)"
  by (auto simp: all_months_of_def history_months_def)

lemma sorted_distinct_drop:
  fixes xs :: "nat list"
  shows "sorted xs \<Longrightarrow> distinct xs \<Longrightarrow>
   set (drop k xs) = {m \<in> set xs. card {m' \<in> set xs. m < m'} < length xs - k}"
proof (induction xs arbitrary: k)
  case Nil
  then show ?case by simp
next
  case (Cons a xs)
  define S where "S = set (a # xs)"
  have lt: "\<forall>x\<in>set xs. a < x" using Cons.prems by (auto simp: le_less)
  have cardxs: "card (set xs) = length xs" using Cons.prems by (simp add: distinct_card)
  have "{m' \<in> S. a < m'} = set xs" using lt by (auto simp: S_def)
  then have card_a: "card {m' \<in> S. a < m'} = length xs" by (simp add: cardxs)
  have card_x: "{m' \<in> S. m < m'} = {m' \<in> set xs. m < m'}" if "m \<in> set xs" for m
    using lt that by (auto simp: S_def)
  have bound: "card {m' \<in> set xs. m < m'} < length xs" if "m \<in> set xs" for m
  proof -
    have "{m' \<in> set xs. m < m'} \<subset> set xs" using that by auto
    then have "card {m' \<in> set xs. m < m'} < card (set xs)"
      by (intro psubset_card_mono) simp_all
    then show ?thesis by (simp add: cardxs)
  qed
  have mem: "m \<in> S \<longleftrightarrow> m = a \<or> m \<in> set xs" for m by (simp add: S_def)
  have goal: "set (drop k (a # xs)) = {m \<in> S. card {m' \<in> S. m < m'} < length (a # xs) - k}"
  proof (cases k)
    case 0
    have "card {m' \<in> S. m < m'} < Suc (length xs)" if "m \<in> S" for m
    proof (cases "m = a")
      case True
      then show ?thesis using card_a by simp
    next
      case False
      then have "m \<in> set xs" using that mem by simp
      then show ?thesis using bound [of m] card_x [of m] by simp
    qed
    then have "{m \<in> S. card {m' \<in> S. m < m'} < Suc (length xs)} = S" by blast
    then show ?thesis by (simp add: 0 S_def)
  next
    case (Suc j)
    have ih: "set (drop j xs) = {m \<in> set xs. card {m' \<in> set xs. m < m'} < length xs - j}"
      using Cons.IH [of j] Cons.prems by simp
    have "{m \<in> S. card {m' \<in> S. m < m'} < length xs - j} =
          {m \<in> set xs. card {m' \<in> set xs. m < m'} < length xs - j}"
    proof (intro set_eqI iffI)
      fix m
      assume "m \<in> {m \<in> S. card {m' \<in> S. m < m'} < length xs - j}"
      then have mS: "m \<in> S" and c: "card {m' \<in> S. m < m'} < length xs - j" by simp_all
      have "m \<noteq> a" using c card_a by auto
      then have "m \<in> set xs" using mS mem by simp
      then show "m \<in> {m \<in> set xs. card {m' \<in> set xs. m < m'} < length xs - j}"
        using c card_x [of m] by simp
    next
      fix m
      assume "m \<in> {m \<in> set xs. card {m' \<in> set xs. m < m'} < length xs - j}"
      then have mx: "m \<in> set xs" and c: "card {m' \<in> set xs. m < m'} < length xs - j"
        by simp_all
      then show "m \<in> {m \<in> S. card {m' \<in> S. m < m'} < length xs - j}"
        using card_x [OF mx] mem by simp
    qed
    then show ?thesis by (simp add: Suc ih)
  qed
  then show ?case by (simp only: S_def)
qed


lemma last_12_months_set:
  assumes "sorted xs" and "distinct xs"
  shows "set (last_12_months_of xs) = most_recent_12 (set xs)"
proof (cases "12 \<le> length xs")
  case True
  then have "length xs - (length xs - 12) = 12" by simp
  then show ?thesis
    using sorted_distinct_drop [OF assms, of "length xs - 12"] True
    by (simp add: last_12_months_of_def most_recent_12_def)
next
  case False
  have "set xs = {m \<in> set xs. card {m' \<in> set xs. m < m'} < length xs}"
    using sorted_distinct_drop [OF assms, of 0] by simp
  then have "\<And>m. m \<in> set xs \<Longrightarrow> card {m' \<in> set xs. m < m'} < length xs" by blast
  then have "\<And>m. m \<in> set xs \<Longrightarrow> card {m' \<in> set xs. m < m'} < 12"
    using False by fastforce
  then show ?thesis
    using False by (auto simp: last_12_months_of_def most_recent_12_def)
qed

lemma last_12_months_distinct:
  "distinct xs \<Longrightarrow> distinct (last_12_months_of xs)"
  by (simp add: last_12_months_of_def)

lemma last_12_months_subset:
  "set (last_12_months_of xs) \<subseteq> set xs"
  by (auto simp: last_12_months_of_def dest: in_set_dropD)

lemma is_heads_month_ratio:
  "is_heads (month_ratio sm rv m) \<longleftrightarrow> spec_heads_month sm rv m"
  by (simp add: is_heads_def month_ratio_def spec_heads_month_def)

text \<open>Counting over a duplicate-free list of months is counting over its set.\<close>

lemma heads_fraction_list:
  assumes "distinct ms"
  shows "(if map (month_ratio sm rv) ms \<noteq> []
          then real (length (filter is_heads (map (month_ratio sm rv) ms)))
               / real (length (map (month_ratio sm rv) ms))
          else 0) = fraction_of (set ms) (spec_heads_month sm rv)"
proof -
  have "length (filter is_heads (map (month_ratio sm rv) ms)) =
        length (filter (spec_heads_month sm rv) ms)"
    by (simp add: filter_map comp_def is_heads_month_ratio)
  also have "\<dots> = card {m \<in> set ms. spec_heads_month sm rv m}"
    using assms by (simp add: distinct_length_filter Int_def conj_commute)
  finally have cnt: "length (filter is_heads (map (month_ratio sm rv) ms)) =
        card {m \<in> set ms. spec_heads_month sm rv m}" .
  have len: "length ms = card (set ms)"
    using assms by (simp add: distinct_card)
  show ?thesis
    using cnt len by (simp add: fraction_of_def)
qed

lemma build_prediction_algorithm_fields:
  "heads_percentage_overall (build_prediction_algorithm sm rv c) =
     fraction_of (history_months sm rv) (spec_heads_month sm rv)"
  "heads_percentage_last_12 (build_prediction_algorithm sm rv c) =
     fraction_of (most_recent_12 (history_months sm rv)) (spec_heads_month sm rv)"
  "heads_percentage (build_prediction_algorithm sm rv c) =
     (if c then max (heads_percentage_overall (build_prediction_algorithm sm rv c))
                    (heads_percentage_last_12 (build_prediction_algorithm sm rv c))
      else heads_percentage_overall (build_prediction_algorithm sm rv c))"
proof -
  let ?all = "all_months_of sm rv"
  let ?l12 = "last_12_months_of ?all"
  have st: "foldl (ratio_step sm rv) ([], Map.empty) ?all =
        (map (month_ratio sm rv) ?all,
         (\<lambda>m. if m \<in> set ?all then Some (month_ratio sm rv m) else None))"
    by (simp add: foldl_ratio_step)
  have keep: "filter (\<lambda>m. (if m \<in> set ?all then Some (month_ratio sm rv m) else None) \<noteq> None) ?l12
              = ?l12"
    using last_12_months_subset [of ?all] by (auto simp: filter_id_conv)
  have l12: "map (\<lambda>m. the (if m \<in> set ?all then Some (month_ratio sm rv m) else None)) ?l12
             = map (month_ratio sm rv) ?l12"
    using last_12_months_subset [of ?all] by auto
  have overall: "heads_percentage_overall (build_prediction_algorithm sm rv c) =
        (if map (month_ratio sm rv) ?all \<noteq> []
         then real (length (filter is_heads (map (month_ratio sm rv) ?all)))
              / real (length (map (month_ratio sm rv) ?all))
         else 0)"
    by (simp only: build_prediction_algorithm_def Let_def st fst_conv snd_conv
        algorithm_data.select_convs)
  have last: "heads_percentage_last_12 (build_prediction_algorithm sm rv c) =
        (if map (month_ratio sm rv) ?l12 \<noteq> []
         then real (length (filter is_heads (map (month_ratio sm rv) ?l12)))
              / real (length (map (month_ratio sm rv) ?l12))
         else 0)"
    by (simp only: build_prediction_algorithm_def Let_def st fst_conv snd_conv
        algorithm_data.select_convs keep l12)
  show "heads_percentage_overall (build_prediction_algorithm sm rv c) =
     fraction_of (history_months sm rv) (spec_heads_month sm rv)"
    using heads_fraction_list [OF all_months_of_props(2), of sm rv sm rv]
    by (simp only: overall all_months_of_props(1))
  show "heads_percentage_last_12 (build_prediction_algorithm sm rv c) =
     fraction_of (most_recent_12 (history_months sm rv)) (spec_heads_month sm rv)"
    using heads_fraction_list [OF last_12_months_distinct [OF all_months_of_props(2)], of sm rv sm rv]
      last_12_months_set [OF all_months_of_props(3) all_months_of_props(2), of sm rv]
    by (simp only: last all_months_of_props(1))
  show "heads_percentage (build_prediction_algorithm sm rv c) =
     (if c then max (heads_percentage_overall (build_prediction_algorithm sm rv c))
                    (heads_percentage_last_12 (build_prediction_algorithm sm rv c))
      else heads_percentage_overall (build_prediction_algorithm sm rv c))"
    by (simp add: build_prediction_algorithm_def Let_def)
qed

lemma fraction_of_cong:
  "(\<And>m. m \<in> M \<Longrightarrow> P m = Q m) \<Longrightarrow> fraction_of M P = fraction_of M Q"
proof -
  assume "\<And>m. m \<in> M \<Longrightarrow> P m = Q m"
  then have "{m \<in> M. P m} = {m \<in> M. Q m}" by blast
  then show ?thesis by (simp add: fraction_of_def)
qed


text \<open>
  C7.  \<^verbatim>\<open>heads_percentage_overall\<close> is the fraction of all months of the history whose
  spend/revenue ratio is undefined (revenue not positive) or above 10000 (a real number
  is never non-finite); \<^verbatim>\<open>heads_percentage_last_12\<close> is the same fraction over the most
  recent 12 months, or over all of them when the history is shorter; conservative mode
  uses the maximum of the two and aggressive mode the overall fraction; and when the
  revenue of every month is positive, the overall value is exactly the fraction of
  months whose ratio exceeds 10000.
\<close>

theorem heads_percentage_spec:
  "heads_percentage_overall (build_prediction_algorithm sm rv c) =
     fraction_of (history_months sm rv) (spec_heads_month sm rv) \<and>
   heads_percentage_last_12 (build_prediction_algorithm sm rv c) =
     fraction_of (most_recent_12 (history_months sm rv)) (spec_heads_month sm rv) \<and>
   heads_percentage (build_prediction_algorithm sm rv True) =
     max (fraction_of (history_months sm rv) (spec_heads_month sm rv))
         (fraction_of (most_recent_12 (history_months sm rv)) (spec_heads_month sm rv)) \<and>
   heads_percentage (build_prediction_algorithm sm rv False) =
     fraction_of (history_months sm rv) (spec_heads_month sm rv) \<and>
   ((\<forall>m \<in> history_months sm rv. revenue_positive rv m) \<longrightarrow>
      heads_percentage_overall (build_prediction_algorithm sm rv c) =
        fraction_of (history_months sm rv) (\<lambda>m. sm_get sm m / revenue_or_0 rv m > 10000))"
proof -
  have pos: "(\<forall>m \<in> history_months sm rv. revenue_positive rv m) \<longrightarrow>
      fraction_of (history_months sm rv) (spec_heads_month sm rv) =
        fraction_of (history_months sm rv) (\<lambda>m. sm_get sm m / revenue_or_0 rv m > 10000)"
  proof
    assume "\<forall>m \<in> history_months sm rv. revenue_positive rv m"
    then show "fraction_of (history_months sm rv) (spec_heads_month sm rv) =
        fraction_of (history_months sm rv) (\<lambda>m. sm_get sm m / revenue_or_0 rv m > 10000)"
      by (intro fraction_of_cong) (simp add: spec_heads_month_def)
  qed
  show ?thesis
    using pos by (simp add: build_prediction_algorithm_fields)
qed

theorem heads_percentage_spec_witness:
  "history_months [(3, 100), (4, 30000)] [(3, Some 50), (4, Some 2)] = {3, 4} \<and>
   revenue_positive [(3, Some 50), (4, Some 2)] 3 \<and>
   revenue_positive [(3, Some 50), (4, Some 2)] 4 \<and>
   heads_percentage_overall
     (build_prediction_algorithm [(3, 100), (4, 30000)] [(3, Some 50), (4, Some 2)] True) = 1 / 2 \<and>
   heads_percentage
     (build_prediction_algorithm [(3, 100), (4, 30000)] [(3, Some 50), (4, Some 2)] True) = 1 / 2"
proof -
  let ?sm = "[(3, 100), (4, 30000)] :: sm_dict"
  let ?rv = "[(3, Some 50), (4, Some 2)] :: revenue_dict"
  have M: "history_months ?sm ?rv = {3, 4}"
    by (auto simp: history_months_def)
  have p0: "revenue_positive ?rv 3" and p1: "revenue_positive ?rv 4"
    by (simp_all add: revenue_positive_def revenue_get_def)
  have all: "\<forall>m \<in> history_months ?sm ?rv. revenue_positive ?rv m"
    using p0 p1 by (simp add: M)
  have s: "{m \<in> {3, 4 :: nat}. sm_get ?sm m / revenue_or_0 ?rv m > 10000} = {4}"
    by (auto simp: sm_get_def revenue_or_0_def revenue_get_def)
  have f: "fraction_of {3, 4} (\<lambda>m. sm_get ?sm m / revenue_or_0 ?rv m > 10000) = 1 / 2"
    using s by (simp add: fraction_of_def)
  have r12: "most_recent_12 {3, 4 :: nat} = {3, 4}"
  proof -
    have "card {m' \<in> {3, 4 :: nat}. m < m'} \<le> card {3, 4 :: nat}" for m
      by (intro card_mono) auto
    then have "card {m' \<in> {3, 4 :: nat}. m < m'} < 12" for m
      by (rule le_less_trans) simp
    then show ?thesis by (auto simp: most_recent_12_def)
  qed
  have o: "heads_percentage_overall (build_prediction_algorithm ?sm ?rv True) = 1 / 2"
    using heads_percentage_spec [of ?sm ?rv True] all by (simp add: M f)
  have h: "heads_percentage (build_prediction_algorithm ?sm ?rv True) = 1 / 2"
    using heads_percentage_spec [of ?sm ?rv True] o by (simp add: M r12)
  show ?thesis
    using M p0 p1 o h by blast
qed

section \<open>Properties of the RatioSampler\<close>

text \<open>
  The guarded blend of \<^verbatim>\<open>prediction_engine.py\<close> never divides by zero: a growing spend
  means a positive last spend, and the guard makes the drawn ratio and the reference CAC
  positive.
\<close>

lemma harmonic_blend_guarded:
  assumes "last_sm < sm_value" and "0 < last_sm" and "0 < drawn" and "drawn < cac"
  shows "\<exists>r. harmonic_blend sm_value last_sm drawn cac = Inr r"
proof -
  have "0 < last_sm / drawn" using assms by simp
  moreover have "0 < (sm_value - last_sm) / cac" using assms by simp
  ultimately have "last_sm / drawn + (sm_value - last_sm) / cac \<noteq> 0" by linarith
  then show ?thesis
    using assms by (simp add: harmonic_blend_def py_div_def)
qed

lemma forecast_sm_growth_positive:
  assumes "last_sm < forecast_sm last_sm i"
  shows "0 < last_sm"
proof (rule ccontr)
  assume "\<not> 0 < last_sm"
  then have n: "last_sm \<le> 0" by simp
  have "(1::real) \<le> (11 / 10) ^ (i + 1)" by (rule one_le_power) simp
  then have "last_sm * (11 / 10) ^ (i + 1) \<le> last_sm * 1"
    using n by (intro mult_left_mono_neg) simp_all
  then show False using assms by (simp add: forecast_sm_def)
qed

lemma blended_ratio_pe_defined:
  "\<exists>r. blended_ratio_pe alg (forecast_sm last_sm i) last_sm drawn = Inr r"
proof (cases "conservative alg \<and> drawn < cac_12m alg \<and>
              forecast_sm last_sm i > last_sm \<and> drawn > 0")
  case True
  then have "0 < last_sm" using forecast_sm_growth_positive by blast
  then show ?thesis
    using True harmonic_blend_guarded [of last_sm "forecast_sm last_sm i" drawn "cac_12m alg"]
    by (simp add: blended_ratio_pe_def)
next
  case False
  then show ?thesis by (auto simp: blended_ratio_pe_def)
qed

lemma predicted_ratio_pe_defined:
  "\<exists>r s'. predicted_ratio blended_ratio_pe rs alg (forecast_sm last_sm i) last_sm s = Inr (r, s')"
proof -
  obtain r where "blended_ratio_pe alg (forecast_sm last_sm i) last_sm
      (fst (random_choice rs (snd (next_float rs s)) (distribution alg))) = Inr r"
    using blended_ratio_pe_defined by blast
  then show ?thesis
    by (simp add: predicted_ratio_def Let_def)
qed

lemma pe_months_defined:
  "\<exists>res. pe_months rs alg last_sm months s = Inr res"
proof (induction months arbitrary: s)
  case Nil
  then show ?case by simp
next
  case (Cons i months)
  obtain r s' where p: "predicted_ratio blended_ratio_pe rs alg (forecast_sm last_sm i)
      last_sm s = Inr (r, s')"
    using predicted_ratio_pe_defined [of rs alg last_sm i s] by blast
  obtain res where "pe_months rs alg last_sm months s' = Inr res"
    using Cons.IH by blast
  then show ?case
    using p by (cases res) (simp add: Let_def py_div_def)
qed

lemma predict_next_12_months_never_raises:
  "\<exists>res. predict_next_12_months rs sm alg s = Inr res"
  using pe_months_defined [of rs alg _ "[0..<12]" s]
  by (simp add: predict_next_12_months_def Let_def del: upt_Suc)

text \<open>
  A two-month history with no spend in its first month: the ratios are 0 and 2, the
  reference CAC is 1 and no month counts as heads.
\<close>

lemma zero_ratio_history_algorithm:
  "distribution (build_prediction_algorithm [(3, 0), (4, 100)] [(3, Some 50), (4, Some 50)] True)
     = [0, 2] \<and>
   cac_12m (build_prediction_algorithm [(3, 0), (4, 100)] [(3, Some 50), (4, Some 50)] True) = 1 \<and>
   heads_percentage (build_prediction_algorithm [(3, 0), (4, 100)] [(3, Some 50), (4, Some 50)] True)
     = 0 \<and>
   conservative (build_prediction_algorithm [(3, 0), (4, 100)] [(3, Some 50), (4, Some 50)] True)"
proof -
  let ?sm = "[(3, 0), (4, 100)] :: sm_dict"
  let ?rv = "[(3, Some 50), (4, Some 50)] :: revenue_dict"
  have am: "all_months_of ?sm ?rv = [3, 4]"
    by (simp add: all_months_of_def)
  have l12: "last_12_months_of [3, 4] = [3, 4]"
    by (simp add: last_12_months_of_def)
  have m3: "month_ratio ?sm ?rv 3 = Some 0" and m4: "month_ratio ?sm ?rv 4 = Some 2"
    by (simp_all add: month_ratio_def revenue_positive_def revenue_get_def sm_get_def
        revenue_or_0_def)
  have st: "foldl (ratio_step ?sm ?rv) ([], Map.empty) [3, 4] =
        ([Some 0, Some 2], (\<lambda>m. if m \<in> set [3, 4] then Some (month_ratio ?sm ?rv m) else None))"
    by (simp only: foldl_ratio_step append_Nil list.map m3 m4)
  have d: "distribution (build_prediction_algorithm ?sm ?rv True) = [0, 2]"
    by (simp only: build_prediction_algorithm_def Let_def algorithm_data.select_convs am st
        fst_conv) simp
  have sums: "sum_list (map (sm_get ?sm) [3, 4]) = 100"
    "sum_list (map (revenue_or_0 ?rv) [3, 4]) = 100"
    by (simp_all add: sm_get_def revenue_or_0_def revenue_get_def)
  have "calculate_12_month_cac ?sm ?rv = 1"
    by (simp only: calculate_12_month_cac_def Let_def am l12 sums) simp
  then have c: "cac_12m (build_prediction_algorithm ?sm ?rv True) = 1"
    by (simp only: build_prediction_algorithm_def Let_def algorithm_data.select_convs)
  have h: "heads_percentage (build_prediction_algorithm ?sm ?rv True) = 0"
    by (simp only: build_prediction_algorithm_def Let_def algorithm_data.select_convs am st
        fst_conv snd_conv l12) (simp add: is_heads_def m3 m4)
  have k: "conservative (build_prediction_algorithm ?sm ?rv True)"
    by (simp only: build_prediction_algorithm_def Let_def algorithm_data.select_convs)
  show ?thesis
    using d c h k by blast
qed

text \<open>
  C5.  Computing the conservative harmonic blend should never raise a division by
  zero, also for a drawn ratio of 0 with \<open>spend_i > lastKnownSpend\<close> and a drawn ratio
  below the reference CAC.  \<^verbatim>\<open>predict_next_12_months\<close> guards the blend with
  \<^verbatim>\<open>drawn_ratio > 0\<close> and never raises (\<open>predict_next_12_months_never_raises\<close>);
  \<^verbatim>\<open>run_single_prediction_ratio\<close> lacks the guard and raises
  \<^verbatim>\<open>ZeroDivisionError\<close> in the first forecast month of the history above, when the
  ratio 0 is drawn.
\<close>

theorem run_single_prediction_ratio_zero_ratio_raises:
  "run_single_prediction_ratio fixed_source [(3, 0), (4, 100)] [(3, Some 50), (4, Some 50)]
     (build_prediction_algorithm [(3, 0), (4, 100)] [(3, Some 50), (4, Some 50)] True) ()
   = Inl ZeroDivisionError"
proof -
  let ?alg = "build_prediction_algorithm [(3, 0), (4, 100)] [(3, Some 50), (4, Some 50)] True"
  have am: "all_months_of [(3, 0), (4, 100)] [(3, Some 50), (4, Some 50)] = [3, 4]"
    by (simp add: all_months_of_def)
  have last_sm: "sm_get [(3, 0), (4, 100)] (last [3, 4]) = 100"
    by (simp add: sm_get_def)
  have sm1: "forecast_sm 100 0 = 110"
    by (simp add: forecast_sm_def)
  have blend: "blended_ratio_mc ?alg 110 100 0 = Inl ZeroDivisionError"
    using zero_ratio_history_algorithm
    by (simp add: blended_ratio_mc_def harmonic_blend_def py_div_def)
  have month: "predicted_ratio blended_ratio_mc fixed_source ?alg 110 100 () = Inl ZeroDivisionError"
    using zero_ratio_history_algorithm blend
    by (simp add: predicted_ratio_def fixed_source_def random_choice_def Let_def)
  have "mc_months fixed_source ?alg 100 (0 # [1..<12]) () = Inl ZeroDivisionError"
    by (simp only: mc_months.simps Let_def sm1 month sum.case)
  moreover have "[0..<12] = 0 # [1..<12]"
    by (simp add: upt_conv_Cons del: upt_Suc)
  ultimately have "mc_months fixed_source ?alg 100 [0..<12] () = Inl ZeroDivisionError"
    by (simp only:)
  then show ?thesis
    by (simp only: run_single_prediction_ratio_def am last_sm Let_def list.simps if_False)
qed

section \<open>Properties of the RetentionCurveSampler\<close>

lemma find_cols_result:
  "\<exists>ys. find_cols tbl quota cs found = found @ ys \<and>
        (\<forall>y \<in> set ys. column_values tbl y \<noteq> []) \<and>
        ((\<exists>c \<in> set cs. column_values tbl c \<noteq> []) \<longrightarrow> ys \<noteq> [])"
proof (induction cs arbitrary: found)
  case Nil
  then show ?case by simp
next
  case (Cons c cs)
  show ?case
  proof (cases "column_values tbl c \<noteq> []")
    case True
    show ?thesis
    proof (cases "length (found @ [c]) = quota")
      case stop: True
      have "find_cols tbl quota (c # cs) found = found @ [c]"
        using True stop by (simp add: Let_def)
      then show ?thesis using True by simp
    next
      case go: False
      obtain ys where ys: "find_cols tbl quota cs (found @ [c]) = (found @ [c]) @ ys"
          and ne: "\<forall>y \<in> set ys. column_values tbl y \<noteq> []"
        using Cons.IH [of "found @ [c]"] by blast
      have "find_cols tbl quota (c # cs) found = found @ (c # ys)"
        using True go ys by (simp add: Let_def)
      then show ?thesis using True ne by auto
    qed
  next
    case False
    obtain ys where ys: "find_cols tbl quota cs found = found @ ys"
        and ne: "\<forall>y \<in> set ys. column_values tbl y \<noteq> []"
        and ex: "(\<exists>c \<in> set cs. column_values tbl c \<noteq> []) \<longrightarrow> ys \<noteq> []"
      using Cons.IH [of found] by blast
    have "find_cols tbl quota (c # cs) found = found @ ys"
      using False ys by simp
    then show ?thesis using False ne ex by auto
  qed
qed

lemma find_cols_concat_nonempty:
  assumes "c \<in> set cs" and "column_values tbl c \<noteq> []"
  shows "concat (map (column_values tbl) (find_cols tbl quota cs [])) \<noteq> []"
proof -
  obtain ys where ys: "find_cols tbl quota cs [] = ys"
      and ne: "\<forall>y \<in> set ys. column_values tbl y \<noteq> []" and nn: "ys \<noteq> []"
    using find_cols_result [of tbl quota cs "[]"] assms by auto
  obtain y rest where "ys = y # rest" using nn by (cases ys) auto
  then show ?thesis using ne ys by simp
qed

lemma find_cols_none:
  "\<forall>c \<in> set cs. column_values tbl c = [] \<Longrightarrow> find_cols tbl quota cs found = found"
  by (induction cs) simp_all

lemma find_col_none:
  "\<forall>c \<in> set cs. column_values tbl c = [] \<Longrightarrow> find_col tbl cs = None"
  by (induction cs) simp_all

lemma widened_pool_nonempty:
  assumes "c < 60" and "c' < 60" and "column_values tbl c' \<noteq> []"
  shows "widened_pool tbl c quota \<noteq> []"
proof -
  consider "c' = c" | "c' < c" | "c < c'" by linarith
  then show ?thesis
  proof cases
    case 1
    then show ?thesis using assms(3) by (simp add: widened_pool_def Let_def)
  next
    case 2
    then have "c' \<in> set (rev [0..<c])" by simp
    then have "concat (map (column_values tbl) (find_cols tbl quota (rev [0..<c]) [])) \<noteq> []"
      using assms(3) by (rule find_cols_concat_nonempty)
    then show ?thesis by (simp add: widened_pool_def Let_def)
  next
    case 3
    then have "c' \<in> set [c + 1..<60]" using assms(2) by simp
    then have "concat (map (column_values tbl) (find_cols tbl quota [c + 1..<60] [])) \<noteq> []"
      using assms(3) by (rule find_cols_concat_nonempty)
    then show ?thesis by (simp add: widened_pool_def Let_def)
  qed
qed

lemma column_pool_nonempty:
  assumes "c < 60" and "c' < 60" and "column_values tbl c' \<noteq> []"
  shows "column_pool tbl c \<noteq> []"
proof (cases "12 \<le> length (column_values tbl c)")
  case True
  then have "column_values tbl c \<noteq> []" by auto
  then show ?thesis using True by (simp add: column_pool_def Let_def)
next
  case False
  then show ?thesis
    using widened_pool_nonempty [OF assms] by (simp add: column_pool_def Let_def)
qed

lemma conservative_dampening_defined:
  "conservative_dampening cons floor_ndr (Some d) \<noteq> None"
  by (simp add: conservative_dampening_def del: not_None_eq)

lemma draw_column_defined:
  assumes "column_pool tbl c \<noteq> []"
  shows "fst (draw_column rs tbl c s) = Some (fst (random_choice rs s (column_pool tbl c)))"
  using assms by (simp add: draw_column_def Let_def)

text \<open>The table \<open>wide_table\<close> is the retention table of the cohorts \<open>wide_cohorts\<close>.\<close>

lemma retention_row_zeros: "retention_row (replicate 62 (Some 0)) = replicate 61 None"
  by (intro nth_equalityI) (simp_all add: retention_row_def retention_cell_def)

lemma retention_row_late:
  "retention_row (replicate 60 (Some 0) @ [Some 100, Some 150]) = replicate 60 None @ [Some (3 / 2)]"
proof (intro nth_equalityI)
  show "length (retention_row (replicate 60 (Some 0) @ [Some 100, Some 150])) =
        length (replicate 60 None @ [Some (3 / 2 :: real)])"
    by (simp add: retention_row_def)
next
  fix i
  assume "i < length (retention_row (replicate 60 (Some 0) @ [Some 100, Some 150]))"
  then have i: "i < 61" by (simp add: retention_row_def)
  show "retention_row (replicate 60 (Some 0) @ [Some 100, Some 150]) ! i =
        (replicate 60 None @ [Some (3 / 2)]) ! i"
  proof (cases "i < 60")
    case True
    then show ?thesis
      by (simp add: retention_row_def retention_cell_def nth_append)
  next
    case False
    then have "i = 60" using i by simp
    then show ?thesis
      by (simp add: retention_row_def retention_cell_def nth_append)
  qed
qed

lemma wide_table_from_cohorts: "get_retention_table wide_cohorts = Inr wide_table"
proof -
  have u: "[0..<3] = [0, 1, 2]" by (simp add: upt_rec)
  show ?thesis
    by (simp add: get_retention_table_def wide_cohorts_def wide_table_def Let_def u
        capped_row_def retention_row_zeros retention_row_late)
qed

lemma wide_table_column_60: "column_values wide_table 60 = [3 / 2]"
proof -
  have n: "(replicate 60 None @ [Some (3 / 2 :: real)]) ! 60 = Some (3 / 2)"
    by (simp add: nth_append)
  show ?thesis
    by (simp add: wide_table_def column_values_def n del: not_None_eq)
qed

lemma wide_table_columns_empty: "c < 60 \<Longrightarrow> column_values wide_table c = []"
  by (simp add: wide_table_def column_values_def nth_append)

lemma wide_table_pool_empty: "c < 60 \<Longrightarrow> column_pool wide_table c = []"
proof -
  assume c: "c < 60"
  have l: "find_cols wide_table q (rev [0..<c]) [] = []" for q
    using c by (intro find_cols_none) (simp add: wide_table_columns_empty)
  have r: "find_cols wide_table q [Suc c..<60] [] = []" for q
    by (intro find_cols_none) (simp add: wide_table_columns_empty)
  show ?thesis
    using c by (simp add: column_pool_def widened_pool_def Let_def l r wide_table_columns_empty)
qed

text \<open>
  C8 fails as stated for a table with more than 60 columns: the sampler visits the
  columns 0 to 59 only, on either side.  In the table \<open>wide_table\<close>, built by
  \<^verbatim>\<open>get_retention_table\<close> from \<open>wide_cohorts\<close>, column 60 holds an observed value, and
  the pool of column 0 is empty and its sampled value null.
\<close>

theorem pool_empty_wide_table_counterexample:
  "get_retention_table wide_cohorts = Inr wide_table \<and>
   column_values wide_table 60 \<noteq> [] \<and> (0::nat) < 60 \<and> column_pool wide_table 0 = [] \<and>
   fst (sample_column fixed_source wide_table 1 True 0 ()) = None"
proof -
  have p: "column_pool wide_table 0 = []" by (rule wide_table_pool_empty) simp
  have "fst (sample_column fixed_source wide_table 1 True 0 ()) = None"
    by (simp add: sample_column_def draw_column_def conservative_dampening_def Let_def p
        wide_table_columns_empty)
  then show ?thesis
    using p wide_table_from_cohorts by (simp add: wide_table_column_60)
qed

text \<open>
  C8, amended.  For every retention table and every column \<open>c\<close> in 0..59, the widened
  pool of column \<open>c\<close> is non-empty, and the value drawn and the value sampled for the
  column (in either mode) are non-null, whenever at least one of the columns 0..59 of
  the table, the older-cohorts first row excluded, contains an observed value.
\<close>

theorem widened_pool_never_empty:
  assumes "c < 60" and "c' < 60" and "column_values tbl c' \<noteq> []"
  shows "column_pool tbl c \<noteq> [] \<and>
         fst (draw_column rs tbl c s) \<noteq> None \<and>
         fst (sample_column rs tbl floor_ndr cons c s) \<noteq> None"
proof -
  have p: "column_pool tbl c \<noteq> []" by (rule column_pool_nonempty [OF assms])
  have d: "fst (draw_column rs tbl c s) = Some (fst (random_choice rs s (column_pool tbl c)))"
    by (rule draw_column_defined [OF p])
  have "fst (sample_column rs tbl floor_ndr cons c s) =
        conservative_dampening cons floor_ndr (Some (fst (random_choice rs s (column_pool tbl c))))"
    by (simp add: sample_column_def Let_def d)
  then have "fst (sample_column rs tbl floor_ndr cons c s) \<noteq> None"
    by (simp only: conservative_dampening_defined not_False_eq_True)
  then show ?thesis
    using p d by simp
qed

theorem widened_pool_never_empty_witness:
  "(0::nat) < 60 \<and> (1::nat) < 60 \<and>
   column_values [[], [None, Some (1 / 2)]] 1 \<noteq> [] \<and>
   column_pool [[], [None, Some (1 / 2)]] 0 \<noteq> [] \<and>
   fst (draw_column fixed_source [[], [None, Some (1 / 2)]] 0 ()) \<noteq> None \<and>
   fst (sample_column fixed_source [[], [None, Some (1 / 2)]] 1 True 0 ()) \<noteq> None"
proof -
  have a: "(0::nat) < 60" and b: "(1::nat) < 60" by simp_all
  have c: "column_values [[], [None, Some (1 / 2)]] 1 \<noteq> []"
    by (simp add: column_values_def del: not_None_eq)
  show ?thesis
    using a b c widened_pool_never_empty [OF a b c, of fixed_source "()" 1 True]
    by blast
qed

lemma conservative_dampening_aggressive:
  "conservative_dampening False floor_ndr chosen = chosen"
  by (simp add: conservative_dampening_def)

lemma conservative_dampening_spec:
  "conservative_dampening True floor_ndr chosen = spec_dampened floor_ndr chosen"
  by (cases chosen) (auto simp: conservative_dampening_def spec_dampened_def add.commute not_le)

lemma sample_column_modes:
  "sample_column rs tbl floor_ndr True c s =
     (spec_dampened floor_ndr (fst (sample_column rs tbl floor_ndr False c s)),
      snd (sample_column rs tbl floor_ndr False c s))"
  by (simp add: sample_column_def Let_def conservative_dampening_aggressive
      conservative_dampening_spec)

lemma simulate_columns_modes:
  "simulate_columns rs tbl floor_ndr True cols s =
     (map (spec_dampened floor_ndr) (fst (simulate_columns rs tbl floor_ndr False cols s)),
      snd (simulate_columns rs tbl floor_ndr False cols s))"
proof (induction cols arbitrary: s)
  case Nil
  then show ?case by simp
next
  case (Cons c cols)
  show ?case
    by (simp add: Let_def sample_column_modes [of rs tbl floor_ndr c s] Cons.IH)
qed

lemma simulate_curves_modes:
  "simulate_curves rs tbl floor_ndr True n s =
     (map (map (spec_dampened floor_ndr)) (fst (simulate_curves rs tbl floor_ndr False n s)),
      snd (simulate_curves rs tbl floor_ndr False n s))"
proof (induction n arbitrary: s)
  case 0
  then show ?case by simp
next
  case (Suc n)
  show ?case
    by (simp add: Let_def simulate_retention_curve_def
        simulate_columns_modes [of rs tbl floor_ndr "[0..<60]" s] Suc.IH del: upt_Suc)
qed

lemma length_simulate_columns:
  "length (fst (simulate_columns rs tbl floor_ndr cons cols s)) = length cols"
  by (induction cols arbitrary: s) (simp_all add: Let_def)

lemma spec_dampened_le:
  "spec_dampened floor_ndr (Some v) = Some w \<Longrightarrow> w \<le> v"
  by (auto simp: spec_dampened_def split: if_splits)

text \<open>
  C9.  For every retention table, NDR floor, random source and seed (the initial state
  of the source), the conservative run and the aggressive run make the same draws
  (they leave the source in the same state), and the conservative curve is the
  aggressive curve with every value dampened: the value itself when it is at most
  \<open>max(1, floor)\<close>, the average of the value and \<open>max(1, floor)\<close> when it is above,
  hence never more than the aggressive value.  The same holds for the 1000 curves of
  \<^verbatim>\<open>simulate_1000_retention_curves\<close>.
\<close>

theorem conservative_curve_is_dampened_aggressive_curve:
  "fst (simulate_retention_curve rs tbl floor_ndr True s) =
     map (spec_dampened floor_ndr) (fst (simulate_retention_curve rs tbl floor_ndr False s)) \<and>
   snd (simulate_retention_curve rs tbl floor_ndr True s) =
     snd (simulate_retention_curve rs tbl floor_ndr False s) \<and>
   length (fst (simulate_retention_curve rs tbl floor_ndr False s)) = 60 \<and>
   fst (simulate_1000_retention_curves rs tbl floor_ndr True s) =
     map (map (spec_dampened floor_ndr))
       (fst (simulate_1000_retention_curves rs tbl floor_ndr False s)) \<and>
   snd (simulate_1000_retention_curves rs tbl floor_ndr True s) =
     snd (simulate_1000_retention_curves rs tbl floor_ndr False s) \<and>
   (\<forall>c<60. fst (simulate_retention_curve rs tbl floor_ndr True s) ! c =
            spec_dampened floor_ndr (fst (simulate_retention_curve rs tbl floor_ndr False s) ! c)) \<and>
   (\<forall>v w. spec_dampened floor_ndr (Some v) = Some w \<longrightarrow> w \<le> v)"
proof -
  have len: "length (fst (simulate_retention_curve rs tbl floor_ndr False s)) = 60"
    by (simp add: simulate_retention_curve_def length_simulate_columns del: upt_Suc)
  have one: "simulate_retention_curve rs tbl floor_ndr True s =
      (map (spec_dampened floor_ndr) (fst (simulate_retention_curve rs tbl floor_ndr False s)),
       snd (simulate_retention_curve rs tbl floor_ndr False s))"
    unfolding simulate_retention_curve_def by (rule simulate_columns_modes)
  have many: "simulate_1000_retention_curves rs tbl floor_ndr True s =
      (map (map (spec_dampened floor_ndr))
         (fst (simulate_1000_retention_curves rs tbl floor_ndr False s)),
       snd (simulate_1000_retention_curves rs tbl floor_ndr False s))"
    unfolding simulate_1000_retention_curves_def by (rule simulate_curves_modes)
  have cols: "\<forall>c<60. fst (simulate_retention_curve rs tbl floor_ndr True s) ! c =
            spec_dampened floor_ndr (fst (simulate_retention_curve rs tbl floor_ndr False s) ! c)"
    using len by (simp add: one)
  show ?thesis
    using len cols spec_dampened_le by (simp add: one many)
qed

lemma narrow_table_columns:
  "column_values [[], [Some 3]] 0 = [3]" "1 \<le> c \<Longrightarrow> column_values [[], [Some 3]] c = []"
  by (simp_all add: column_values_def del: not_None_eq)

lemma narrow_table_draw:
  "sample_column fixed_source [[], [Some 3]] 1 False 0 () = (Some 3, ())"
proof -
  have r: "find_cols [[], [Some 3]] 5 [Suc 0..<60] [] = []"
    by (intro find_cols_none) (simp add: narrow_table_columns)
  have "column_pool [[], [Some 3]] 0 = [3]"
    by (simp add: column_pool_def widened_pool_def Let_def narrow_table_columns r del: upt_Suc)
  then show ?thesis
    by (simp add: sample_column_def draw_column_def random_choice_def fixed_source_def Let_def
        conservative_dampening_def)
qed

theorem conservative_curve_witness:
  "fst (simulate_retention_curve fixed_source [[], [Some 3]] 1 False ()) ! 0 = Some 3 \<and>
   fst (simulate_retention_curve fixed_source [[], [Some 3]] 1 True ()) ! 0 = Some 2 \<and>
   spec_dampened 1 (Some 3) = Some 2 \<and> (2::real) \<le> 3"
proof -
  have "[0..<60] = 0 # [1..<60]" by (simp add: upt_conv_Cons del: upt_Suc)
  then have a: "fst (simulate_retention_curve fixed_source [[], [Some 3]] 1 False ()) ! 0 = Some 3"
    by (simp add: simulate_retention_curve_def Let_def narrow_table_draw del: upt_Suc)
  have d: "spec_dampened 1 (Some 3) = Some 2"
    by (simp add: spec_dampened_def)
  have "fst (simulate_retention_curve fixed_source [[], [Some 3]] 1 True ()) ! 0 =
        spec_dampened 1 (fst (simulate_retention_curve fixed_source [[], [Some 3]] 1 False ()) ! 0)"
    using conservative_curve_is_dampened_aggressive_curve [of fixed_source "[[], [Some 3]]" 1 "()"]
    by simp
  then have b: "fst (simulate_retention_curve fixed_source [[], [Some 3]] 1 True ()) ! 0 = Some 2"
    by (simp only: a d)
  show ?thesis
    using a b d by simp
qed

section \<open>Properties of the ReturnCapEngine\<close>

lemma monthly_returns_of_take:
  assumes "n \<le> length gps"
  shows "monthly_returns_of gps n =
         map (\<lambda>gp. if gp \<noteq> None \<and> the gp > 0 then the gp * (4 / 5) else 0) (take n gps)"
  using assms by (intro nth_equalityI) (simp_all add: monthly_returns_of_def)

lemma length_monthly_returns_of: "length (monthly_returns_of gps n) = n"
  by (simp add: monthly_returns_of_def)

lemma zero_from_upto:
  "k \<le> length xs \<Longrightarrow>
   length (foldl (\<lambda>ys i. ys[i := 0]) xs [m..<k]) = length xs \<and>
   (\<forall>i < length xs. foldl (\<lambda>ys i. ys[i := 0]) xs [m..<k] ! i =
        (if m \<le> i \<and> i < k then 0 else xs ! i))"
proof (induction k)
  case 0
  then show ?case by simp
next
  case (Suc k)
  then have ih: "length (foldl (\<lambda>ys i. ys[i := 0]) xs [m..<k]) = length xs"
      "\<forall>i < length xs. foldl (\<lambda>ys i. ys[i := 0]) xs [m..<k] ! i =
        (if m \<le> i \<and> i < k then 0 else xs ! i)"
    by simp_all
  show ?case
  proof (cases "m \<le> k")
    case True
    then have "[m..<Suc k] = [m..<k] @ [k]" by simp
    then show ?thesis
      using ih Suc.prems by (auto simp: nth_list_update less_Suc_eq)
  next
    case False
    then show ?thesis using ih by auto
  qed
qed

lemma zero_from_nth:
  "i < length xs \<Longrightarrow> zero_from m xs ! i = (if i < m then xs ! i else 0)"
  using zero_from_upto [of "length xs" xs m] by (auto simp: zero_from_def)

lemma length_zero_from: "length (zero_from m xs) = length xs"
  using zero_from_upto [of "length xs" xs m] by (simp add: zero_from_def)

lemma find_target_month_Some:
  "find_target_month lib loan t mr ms = Some m \<Longrightarrow>
   \<exists>k r. k \<in> set ms \<and> m = k + 1 \<and> call_irr lib ((- loan) # take m mr) = Rate r \<and> t \<le> r"
proof (induction ms)
  case Nil
  then show ?case by simp
next
  case (Cons a ms)
  then show ?case
    by (cases "call_irr lib ((- loan) # take (a + 1) mr)") (auto split: if_splits)
qed

lemma find_target_month_None:
  "\<forall>k \<in> set ms. \<forall>r. call_irr lib ((- loan) # take (k + 1) mr) = Rate r \<longrightarrow> r < t \<Longrightarrow>
   find_target_month lib loan t mr ms = None"
proof (induction ms)
  case Nil
  then show ?case by simp
next
  case (Cons a ms)
  then show ?case
    by (cases "call_irr lib ((- loan) # take (a + 1) mr)") (auto simp: not_le)
qed

text \<open>The fields of the result when the first block raises nothing.\<close>

lemma calculate_fund_returns_for_cohort_fields:
  assumes "nat (min 60 (max_years * 12)) = n" and "n \<le> 60" and "n \<le> length gps"
    and "lib = None \<or> call_irr lib ((- (sm * (4 / 5))) # monthly_returns_of gps n) \<noteq> Raised"
  shows "\<exists>res. calculate_fund_returns_for_cohort lib sm gps target max_years = Inr res \<and>
     months_to_target res =
       find_target_month lib (sm * (4 / 5)) target (monthly_returns_of gps n) [0..<n] \<and>
     return_reached res = (months_to_target res \<noteq> None) \<and>
     final_monthly_returns res =
       (case months_to_target res of
          None \<Rightarrow> monthly_returns_of gps n
        | Some m \<Rightarrow> zero_from m (monthly_returns_of gps n)) \<and>
     actual_irr res =
       (case call_irr lib ((- (sm * (4 / 5))) # final_monthly_returns res) of
          Rate r \<Rightarrow> r
        | NaN \<Rightarrow> 0
        | Raised \<Rightarrow> calculate_simple_irr (sm * (4 / 5)) (final_monthly_returns res))"
proof (cases "lib = None")
  case True
  show ?thesis
    using assms(2,3) True
    by (simp add: calculate_fund_returns_for_cohort_def Let_def assms(1)
        length_monthly_returns_of length_zero_from
        split: option.split irr_outcome.split)
next
  case False
  then have "call_irr lib ((- (sm * (4 / 5))) # monthly_returns_of gps n) \<noteq> Raised"
    using assms(4) by blast
  then show ?thesis
    using assms(2,3)
    by (simp add: calculate_fund_returns_for_cohort_def Let_def assms(1)
        length_monthly_returns_of length_zero_from
        split: option.split irr_outcome.split)
qed

lemma calculate_fund_returns_for_cohort_result:
  assumes "nat (min 60 (max_years * 12)) \<le> length gps"
    and "lib = None \<or>
         call_irr lib ((- (sm * (4 / 5))) # monthly_returns_of gps (nat (min 60 (max_years * 12))))
           \<noteq> Raised"
  shows "\<exists>res. calculate_fund_returns_for_cohort lib sm gps target max_years = Inr res \<and>
     months_to_target res =
       find_target_month lib (sm * (4 / 5)) target
         (monthly_returns_of gps (nat (min 60 (max_years * 12))))
         [0..<nat (min 60 (max_years * 12))] \<and>
     return_reached res = (months_to_target res \<noteq> None) \<and>
     final_monthly_returns res =
       (case months_to_target res of
          None \<Rightarrow> monthly_returns_of gps (nat (min 60 (max_years * 12)))
        | Some m \<Rightarrow> zero_from m (monthly_returns_of gps (nat (min 60 (max_years * 12))))) \<and>
     actual_irr res =
       (case call_irr lib ((- (sm * (4 / 5))) # final_monthly_returns res) of
          Rate r \<Rightarrow> r
        | NaN \<Rightarrow> 0
        | Raised \<Rightarrow> calculate_simple_irr (sm * (4 / 5)) (final_monthly_returns res))"
proof -
  have n60: "nat (min 60 (max_years * 12)) \<le> 60" by simp
  show ?thesis
    by (rule calculate_fund_returns_for_cohort_fields [OF refl n60 assms])
qed

lemma irr_among_not_raised: "irr_among candidates cfs \<noteq> Raised"
  by (simp add: irr_among_def split: list.split)

lemma irr_among_root: "irr_among candidates cfs = Rate r \<Longrightarrow> npv r cfs = 0"
proof -
  assume a: "irr_among candidates cfs = Rate r"
  then obtain rest where "filter (\<lambda>r. npv r cfs = 0) candidates = r # rest"
    by (auto simp: irr_among_def split: list.splits)
  then have "r \<in> set (filter (\<lambda>r. npv r cfs = 0) candidates)" by simp
  then show ?thesis by simp
qed

lemma npv_zeros: "npv r (replicate k 0) = 0"
  by (induction k) simp_all

text \<open>The two prefixes of the example have one root above \<open>-1\<close> each.\<close>

lemma first_prefix_root_unique:
  assumes "- 1 < r" and "npv r [- 100, 102] = 0"
  shows "r = 1 / 50"
proof -
  have "1 + r \<noteq> 0" using assms(1) by simp
  then show ?thesis using assms(2) by (simp add: field_simps)
qed

lemma second_prefix_root_unique:
  assumes "- 1 < r" and "npv r [- 100, 102, 72] = 0"
  shows "r = 1 / 2"
proof -
  define x where "x = 1 + r"
  have x: "0 < x" using assms(1) by (simp add: x_def)
  have "- 100 + (102 + 72 / x) / x = 0"
    using assms(2) by (simp add: x_def)
  then have "100 * (x * x) - 102 * x - 72 = 0"
    using x by (simp add: field_simps)
  then have "(x - 3 / 2) * (100 * x + 48) = 0"
    by (simp add: algebra_simps)
  moreover have "100 * x + 48 \<noteq> 0" using x by simp
  ultimately have "x = 3 / 2" by simp
  then show ?thesis by (simp add: x_def)
qed

lemma two_payment_monthly_returns:
  "monthly_returns_of two_payment_series 60 = 102 # 72 # replicate 58 0"
proof -
  have "(60::nat) \<le> length two_payment_series" by (simp add: two_payment_series_def)
  then show ?thesis
    by (simp add: monthly_returns_of_take two_payment_series_def del: not_None_eq)
qed

lemma two_payment_irr:
  "irr_among [1 / 50, 1 / 2] [- 100, 102] = Rate (1 / 50)"
  "irr_among [1 / 50, 1 / 2] [- 100, 102, 72] = Rate (1 / 2)"
  by (simp_all add: irr_among_def)

lemma two_payment_target_month:
  "find_target_month (Some (irr_among [1 / 50, 1 / 2])) 100 (4 / 25)
     (102 # 72 # replicate 58 0) [0..<60] = Some 2"
proof -
  have u: "[0..<60] = 0 # 1 # [2..<60]"
    by (simp add: upt_conv_Cons del: upt_Suc)
  show ?thesis
    unfolding u by (simp add: call_irr_def two_payment_irr del: upt_Suc)
qed

lemma two_payment_spec_month:
  "spec_target_month (Some (irr_among [1 / 50, 1 / 2])) 100 (4 / 25)
     (102 # 72 # replicate 58 0) [0..<60] = Some 1"
proof -
  have u: "[0..<60] = 0 # [1..<60]"
    by (simp add: upt_conv_Cons del: upt_Suc)
  have a: "(4 / 25 :: real) \<le> annualized (1 / 50)"
    by (simp add: annualized_def power_divide)
  show ?thesis
    unfolding u using a by (simp add: call_irr_def two_payment_irr del: upt_Suc)
qed

text \<open>
  C2.  Capping should be triggered at the first prefix whose annualised IRR,
  \<open>(1 + monthlyIRR)^12 - 1\<close>, reaches the target (0.16 by default).  The loop compares
  the monthly rate the root-finder returns with the annual target.  For a loan of 100
  repaid by 102 and 72, the first prefix has the monthly IRR 2\%, that is 26.8\% a
  year, above the target: the specification caps at month 1
  (\<open>spec_target_month\<close>), the code at month 2, and the payment of month 2 is kept.
  \<^verbatim>\<open>calculate_target_return_for_irr\<close> of the same file converts the same target as an
  annual rate.
\<close>

theorem cap_compares_monthly_irr_with_annual_target:
  "(\<exists>res. calculate_fund_returns_for_cohort (Some (irr_among [1 / 50, 1 / 2])) 125
            two_payment_series (4 / 25) 5 = Inr res \<and>
          months_to_target res = Some 2 \<and>
          final_monthly_returns res ! 1 = 72) \<and>
   monthly_returns_of two_payment_series 60 = 102 # 72 # replicate 58 0 \<and>
   irr_among [1 / 50, 1 / 2] [- 100, 102] = Rate (1 / 50) \<and>
   (4 / 25 :: real) \<le> annualized (1 / 50) \<and>
   spec_target_month (Some (irr_among [1 / 50, 1 / 2])) 100 (4 / 25)
     (102 # 72 # replicate 58 0) [0..<60] = Some 1"
proof -
  have len: "nat (min 60 (5 * 12)) \<le> length two_payment_series"
    by (simp add: two_payment_series_def)
  have n: "nat (min 60 (5 * 12)) = 60" by simp
  have loan: "(125::real) * (4 / 5) = 100" by simp
  have first: "Some (irr_among [1 / 50, 1 / 2]) = None \<or>
      call_irr (Some (irr_among [1 / 50, 1 / 2]))
        ((- (125 * (4 / 5))) # monthly_returns_of two_payment_series (nat (min 60 (5 * 12))))
        \<noteq> Raised"
    by (simp add: call_irr_def irr_among_not_raised)
  obtain res where res: "calculate_fund_returns_for_cohort (Some (irr_among [1 / 50, 1 / 2])) 125
        two_payment_series (4 / 25) 5 = Inr res"
      and m: "months_to_target res =
        find_target_month (Some (irr_among [1 / 50, 1 / 2])) (125 * (4 / 5)) (4 / 25)
          (monthly_returns_of two_payment_series (nat (min 60 (5 * 12))))
          [0..<nat (min 60 (5 * 12))]"
      and f: "final_monthly_returns res =
        (case months_to_target res of
           None \<Rightarrow> monthly_returns_of two_payment_series (nat (min 60 (5 * 12)))
         | Some m \<Rightarrow> zero_from m (monthly_returns_of two_payment_series (nat (min 60 (5 * 12)))))"
    using calculate_fund_returns_for_cohort_result
      [where lib = "Some (irr_among [1 / 50, 1 / 2])" and sm = 125 and target = "4 / 25",
       OF len first]
    by blast
  have m2: "months_to_target res = Some 2"
    by (simp only: m n loan two_payment_monthly_returns two_payment_target_month)
  have "final_monthly_returns res = zero_from 2 (102 # 72 # replicate 58 0)"
    by (simp only: f m2 n two_payment_monthly_returns option.case)
  then have f1: "final_monthly_returns res ! 1 = 72"
    by (simp add: zero_from_nth)
  have a: "(4 / 25 :: real) \<le> annualized (1 / 50)"
    by (simp add: annualized_def power_divide)
  show ?thesis
    using res m2 f1 a two_payment_monthly_returns two_payment_irr(1) two_payment_spec_month
    by blast
qed

lemma empty_series_monthly_returns:
  "monthly_returns_of empty_series 60 = replicate 60 0"
proof -
  have "(60::nat) \<le> length empty_series" by (simp add: empty_series_def)
  then show ?thesis
    by (simp add: monthly_returns_of_take empty_series_def)
qed

text \<open>
  The cash flow of a cohort without gross profit has no root at all: a root-finder that
  returns only roots cannot return a rate for it.
\<close>

lemma empty_series_no_root: "npv r ((- 80) # replicate 60 0) \<noteq> 0"
proof -
  have "npv r ((- 80) # replicate 60 0) = - 80 + npv r (replicate 60 0) / (1 + r)"
    by (simp only: npv.simps)
  then show ?thesis
    by (simp only: npv_zeros)
qed

lemma empty_series_result:
  "\<exists>res. calculate_fund_returns_for_cohort (Some (irr_among [])) 100 empty_series (4 / 25) 5
            = Inr res \<and>
         months_to_target res = None \<and> actual_irr res = 0"
proof -
  let ?lib = "Some (irr_among [])"
  have nan: "call_irr ?lib cfs = NaN" for cfs
    by (simp add: call_irr_def irr_among_def)
  have len: "nat (min 60 (5 * 12)) \<le> length empty_series"
    by (simp add: empty_series_def)
  have first: "?lib = None \<or>
      call_irr ?lib ((- (100 * (4 / 5))) # monthly_returns_of empty_series (nat (min 60 (5 * 12))))
        \<noteq> Raised"
    by (simp add: nan)
  obtain res where res: "calculate_fund_returns_for_cohort ?lib 100 empty_series (4 / 25) 5 = Inr res"
      and m: "months_to_target res =
        find_target_month ?lib (100 * (4 / 5)) (4 / 25)
          (monthly_returns_of empty_series (nat (min 60 (5 * 12))))
          [0..<nat (min 60 (5 * 12))]"
      and a: "actual_irr res =
        (case call_irr ?lib ((- (100 * (4 / 5))) # final_monthly_returns res) of
           Rate r \<Rightarrow> r
         | NaN \<Rightarrow> 0
         | Raised \<Rightarrow> calculate_simple_irr (100 * (4 / 5)) (final_monthly_returns res))"
    using calculate_fund_returns_for_cohort_result
      [where lib = ?lib and sm = 100 and target = "4 / 25", OF len first]
    by blast
  have "find_target_month ?lib l t mr ms = None" for l t mr ms
    by (rule find_target_month_None) (simp add: nan)
  then have "months_to_target res = None" by (simp only: m)
  moreover have "actual_irr res = 0" by (simp only: a nan irr_outcome.case)
  ultimately show ?thesis using res by blast
qed

lemma monthly_returns_of_Nil_iff: "monthly_returns_of gps n = [] \<longleftrightarrow> n = 0"
  by (simp add: monthly_returns_of_def)

text \<open>
  The first block calls the root-finder only for a positive loan and at least one
  month; without the call it raises nothing.
\<close>

lemma calculate_fund_returns_for_cohort_fields_no_call:
  assumes "nat (min 60 (max_years * 12)) = n" and "n \<le> 60" and "n \<le> length gps"
    and "n = 0 \<or> sm * (4 / 5) \<le> 0"
  shows "\<exists>res. calculate_fund_returns_for_cohort lib sm gps target max_years = Inr res \<and>
     months_to_target res =
       find_target_month lib (sm * (4 / 5)) target (monthly_returns_of gps n) [0..<n] \<and>
     return_reached res = (months_to_target res \<noteq> None) \<and>
     final_monthly_returns res =
       (case months_to_target res of
          None \<Rightarrow> monthly_returns_of gps n
        | Some m \<Rightarrow> zero_from m (monthly_returns_of gps n)) \<and>
     actual_irr res =
       (case call_irr lib ((- (sm * (4 / 5))) # final_monthly_returns res) of
          Rate r \<Rightarrow> r
        | NaN \<Rightarrow> 0
        | Raised \<Rightarrow> calculate_simple_irr (sm * (4 / 5)) (final_monthly_returns res))"
proof (cases "n = 0")
  case True
  show ?thesis
    using assms(2,3) True
    by (simp add: calculate_fund_returns_for_cohort_def Let_def assms(1)
        length_monthly_returns_of length_zero_from monthly_returns_of_Nil_iff
        split: option.split irr_outcome.split)
next
  case False
  then have "sm * (4 / 5) \<le> 0" using assms(4) by blast
  then have "\<not> 0 < sm" by (simp add: mult_le_0_iff)
  then show ?thesis
    using assms(2,3)
    by (simp add: calculate_fund_returns_for_cohort_def Let_def assms(1)
        length_monthly_returns_of length_zero_from monthly_returns_of_Nil_iff
        split: option.split irr_outcome.split)
qed

lemma calculate_fund_returns_for_cohort_returns:
  assumes "nat (min 60 (max_years * 12)) \<le> length gps"
    and "\<not> (lib \<noteq> None \<and> 0 < nat (min 60 (max_years * 12)) \<and> 0 < sm * (4 / 5) \<and>
            call_irr lib ((- (sm * (4 / 5)))
              # monthly_returns_of gps (nat (min 60 (max_years * 12)))) = Raised)"
  shows "\<exists>res. calculate_fund_returns_for_cohort lib sm gps target max_years = Inr res \<and>
     months_to_target res =
       find_target_month lib (sm * (4 / 5)) target
         (monthly_returns_of gps (nat (min 60 (max_years * 12))))
         [0..<nat (min 60 (max_years * 12))] \<and>
     return_reached res = (months_to_target res \<noteq> None) \<and>
     final_monthly_returns res =
       (case months_to_target res of
          None \<Rightarrow> monthly_returns_of gps (nat (min 60 (max_years * 12)))
        | Some m \<Rightarrow> zero_from m (monthly_returns_of gps (nat (min 60 (max_years * 12))))) \<and>
     actual_irr res =
       (case call_irr lib ((- (sm * (4 / 5))) # final_monthly_returns res) of
          Rate r \<Rightarrow> r
        | NaN \<Rightarrow> 0
        | Raised \<Rightarrow> calculate_simple_irr (sm * (4 / 5)) (final_monthly_returns res))"
proof -
  have n60: "nat (min 60 (max_years * 12)) \<le> 60" by simp
  show ?thesis
  proof (cases "lib = None \<or>
         call_irr lib ((- (sm * (4 / 5))) # monthly_returns_of gps (nat (min 60 (max_years * 12))))
           \<noteq> Raised")
    case True
    show ?thesis
      by (rule calculate_fund_returns_for_cohort_fields [OF refl n60 assms(1) True])
  next
    case False
    then have "nat (min 60 (max_years * 12)) = 0 \<or> sm * (4 / 5) \<le> 0"
      using assms(2) by auto
    then show ?thesis
      by (rule calculate_fund_returns_for_cohort_fields_no_call [OF refl n60 assms(1)])
  qed
qed

text \<open>
  The first block catches \<^verbatim>\<open>ImportError\<close> only: an exception the root-finder raises
  there on the full cash flow leaves the function, while the cap loop and the final
  computation swallow every exception.
\<close>

lemma first_block_exception_leaves_function:
  assumes "nat (min 60 (max_years * 12)) = n" and "n \<le> length gps"
    and "lib \<noteq> None" and "0 < n" and "0 < sm * (4 / 5)"
    and "call_irr lib ((- (sm * (4 / 5))) # monthly_returns_of gps n) = Raised"
  shows "calculate_fund_returns_for_cohort lib sm gps target max_years = Inl UncaughtError"
proof -
  have "0 < sm" using assms(5) by (simp add: zero_less_mult_iff)
  then show ?thesis
    using assms(2,3,4,6)
    by (simp add: calculate_fund_returns_for_cohort_def Let_def assms(1)
        length_monthly_returns_of monthly_returns_of_Nil_iff)
qed

lemma missing_library_empty_series_result:
  "\<exists>res. calculate_fund_returns_for_cohort None 100 empty_series (4 / 25) 5 = Inr res \<and>
         months_to_target res = None \<and> actual_irr res = - 1"
proof -
  have raised: "call_irr None cfs = Raised" for cfs
    by (simp add: call_irr_def)
  have len: "nat (min 60 (5 * 12)) \<le> length empty_series"
    by (simp add: empty_series_def)
  have first: "\<not> ((None :: irr_library) \<noteq> None \<and> 0 < nat (min 60 (5 * 12)) \<and>
      (0::real) < 100 * (4 / 5) \<and>
      call_irr None ((- (100 * (4 / 5))) # monthly_returns_of empty_series (nat (min 60 (5 * 12))))
        = Raised)"
    by simp
  obtain res where res: "calculate_fund_returns_for_cohort None 100 empty_series (4 / 25) 5 = Inr res"
      and m: "months_to_target res =
        find_target_month None (100 * (4 / 5)) (4 / 25)
          (monthly_returns_of empty_series (nat (min 60 (5 * 12))))
          [0..<nat (min 60 (5 * 12))]"
      and f: "final_monthly_returns res =
        (case months_to_target res of
           None \<Rightarrow> monthly_returns_of empty_series (nat (min 60 (5 * 12)))
         | Some m \<Rightarrow> zero_from m (monthly_returns_of empty_series (nat (min 60 (5 * 12)))))"
      and a: "actual_irr res =
        (case call_irr None ((- (100 * (4 / 5))) # final_monthly_returns res) of
           Rate r \<Rightarrow> r
         | NaN \<Rightarrow> 0
         | Raised \<Rightarrow> calculate_simple_irr (100 * (4 / 5)) (final_monthly_returns res))"
    using calculate_fund_returns_for_cohort_returns
      [where lib = None and sm = 100 and target = "4 / 25", OF len first]
    by blast
  have "find_target_month None l t mr ms = None" for l t mr ms
    by (rule find_target_month_None) (simp add: raised)
  then have none: "months_to_target res = None" by (simp only: m)
  have n: "nat (min 60 (5 * 12)) = 60" by simp
  have fin: "final_monthly_returns res = replicate 60 0"
    by (simp only: f none option.case n empty_series_monthly_returns)
  have "sum_list (replicate 60 (0::real)) = 0"
    by (simp add: sum_list_replicate)
  then have "calculate_simple_irr (100 * (4 / 5)) (replicate 60 0) = - 1"
    by (simp add: calculate_simple_irr_def Let_def)
  then have "actual_irr res = - 1"
    by (simp only: a raised irr_outcome.case fin)
  then show ?thesis using res none by blast
qed

lemma first_block_exception_example:
  "calculate_fund_returns_for_cohort (Some (\<lambda>cfs. Raised)) 100 empty_series (4 / 25) 5
     = Inl UncaughtError"
proof -
  have n: "nat (min 60 (5 * 12)) = 60" by simp
  have len: "60 \<le> length empty_series" by (simp add: empty_series_def)
  have lib: "Some (\<lambda>cfs :: real list. Raised) \<noteq> None" by simp
  have pos: "(0::nat) < 60" by simp
  have loan: "(0::real) < 100 * (4 / 5)" by simp
  have r: "call_irr (Some (\<lambda>cfs. Raised))
             ((- (100 * (4 / 5))) # monthly_returns_of empty_series 60) = Raised"
    by (simp add: call_irr_def)
  show ?thesis
    by (rule first_block_exception_leaves_function [OF n len lib pos loan r])
qed

text \<open>
  C4 fails as stated in its last part: an undefined final IRR is reported as 0.  For a
  cohort without any gross profit and a root-finder that finds no root, the reported
  \<^verbatim>\<open>actual_irr\<close> is 0, and the IRR cell of a summary row is 0 as well.
\<close>

theorem undefined_irr_reported_as_zero_counterexample:
  "call_irr (Some (irr_among [])) ((- 80) # monthly_returns_of empty_series 60) = NaN \<and>
   map_sum id actual_irr
     (calculate_fund_returns_for_cohort (Some (irr_among [])) 100 empty_series (4 / 25) 5) = Inr 0 \<and>
   calculate_irr (Some (irr_among [])) (take 60 ((- 80) # replicate 60 0)) = None \<and>
   summary_irr_cell (Some (irr_among [])) ((- 80) # replicate 60 0) = 0"
proof -
  have nan: "call_irr (Some (irr_among [])) cfs = NaN" for cfs
    by (simp add: call_irr_def irr_among_def)
  obtain res where "calculate_fund_returns_for_cohort (Some (irr_among [])) 100 empty_series
      (4 / 25) 5 = Inr res" and "actual_irr res = 0"
    using empty_series_result by blast
  then have r: "map_sum id actual_irr
     (calculate_fund_returns_for_cohort (Some (irr_among [])) 100 empty_series (4 / 25) 5) = Inr 0"
    by simp
  have c: "calculate_irr (Some (irr_among [])) (take 60 ((- 80) # replicate 60 0)) = None"
    by (simp add: calculate_irr_def nan)
  then have "summary_irr_cell (Some (irr_among [])) ((- 80) # replicate 60 0) = 0"
    by (simp only: summary_irr_cell_def option.case)
  then show ?thesis
    using nan r c by blast
qed

text \<open>
  C4, amended.  Provided the root-finder does not raise on the full cash flow in the
  first block, the function returns a result.  In it, a month is reported as reaching
  the target only if the root-finder returned a rate for its prefix, at least the
  target; a trajectory none of whose prefixes gets a rate (the root-finder returns
  \<^verbatim>\<open>nan\<close> or raises) is reported as not reached and is not capped.  A final IRR that
  is \<^verbatim>\<open>nan\<close> is reported as \<^verbatim>\<open>actual_irr = 0\<close>; when the final call raises or the library
  is missing, \<^verbatim>\<open>actual_irr\<close> is the approximation \<^verbatim>\<open>calculate_simple_irr\<close>.  And
  \<^verbatim>\<open>create_summary_table\<close> writes 0 for an aggregated IRR that is neither a rate nor an
  exception.  The first conjunct states what the first block does with an exception.
\<close>

theorem undefined_irr_excluded_and_reported:
  assumes "nat (min 60 (max_years * 12)) \<le> length gps"
  shows "(lib \<noteq> None \<and> 0 < nat (min 60 (max_years * 12)) \<and> 0 < sm * (4 / 5) \<and>
          call_irr lib ((- (sm * (4 / 5)))
            # monthly_returns_of gps (nat (min 60 (max_years * 12)))) = Raised \<longrightarrow>
          calculate_fund_returns_for_cohort lib sm gps target max_years = Inl UncaughtError) \<and>
         (\<not> (lib \<noteq> None \<and> 0 < nat (min 60 (max_years * 12)) \<and> 0 < sm * (4 / 5) \<and>
             call_irr lib ((- (sm * (4 / 5)))
               # monthly_returns_of gps (nat (min 60 (max_years * 12)))) = Raised) \<longrightarrow>
          (\<exists>res. calculate_fund_returns_for_cohort lib sm gps target max_years = Inr res \<and>
             (\<forall>m. months_to_target res = Some m \<longrightarrow>
                (\<exists>r. call_irr lib ((- (sm * (4 / 5)))
                        # take m (monthly_returns_of gps (nat (min 60 (max_years * 12))))) = Rate r
                     \<and> target \<le> r)) \<and>
             ((\<forall>k < nat (min 60 (max_years * 12)). \<forall>r.
                  call_irr lib ((- (sm * (4 / 5)))
                    # take (k + 1) (monthly_returns_of gps (nat (min 60 (max_years * 12)))))
                    \<noteq> Rate r)
              \<longrightarrow> months_to_target res = None \<and> \<not> return_reached res \<and>
                  final_monthly_returns res
                    = monthly_returns_of gps (nat (min 60 (max_years * 12)))) \<and>
             (call_irr lib ((- (sm * (4 / 5))) # final_monthly_returns res) = NaN \<longrightarrow>
                actual_irr res = 0) \<and>
             (call_irr lib ((- (sm * (4 / 5))) # final_monthly_returns res) = Raised \<longrightarrow>
                actual_irr res = calculate_simple_irr (sm * (4 / 5)) (final_monthly_returns res)))) \<and>
         (call_irr lib (take 60 column_sums) \<noteq> Raised \<longrightarrow>
            (\<forall>r. call_irr lib (take 60 column_sums) \<noteq> Rate r) \<longrightarrow>
            calculate_irr lib (take 60 column_sums) = None \<and> summary_irr_cell lib column_sums = 0)"
proof -
  let ?n = "nat (min 60 (max_years * 12))"
  let ?mr = "monthly_returns_of gps ?n"
  let ?loan = "sm * (4 / 5)"
  let ?raises = "lib \<noteq> None \<and> 0 < ?n \<and> 0 < ?loan \<and> call_irr lib ((- ?loan) # ?mr) = Raised"
  have thrown: "?raises \<longrightarrow>
      calculate_fund_returns_for_cohort lib sm gps target max_years = Inl UncaughtError"
    using first_block_exception_leaves_function [OF refl assms] by blast
  have returned: "\<not> ?raises \<longrightarrow>
          (\<exists>res. calculate_fund_returns_for_cohort lib sm gps target max_years = Inr res \<and>
             (\<forall>m. months_to_target res = Some m \<longrightarrow>
                (\<exists>r. call_irr lib ((- ?loan) # take m ?mr) = Rate r \<and> target \<le> r)) \<and>
             ((\<forall>k < ?n. \<forall>r. call_irr lib ((- ?loan) # take (k + 1) ?mr) \<noteq> Rate r)
              \<longrightarrow> months_to_target res = None \<and> \<not> return_reached res \<and>
                  final_monthly_returns res = ?mr) \<and>
             (call_irr lib ((- ?loan) # final_monthly_returns res) = NaN \<longrightarrow>
                actual_irr res = 0) \<and>
             (call_irr lib ((- ?loan) # final_monthly_returns res) = Raised \<longrightarrow>
                actual_irr res = calculate_simple_irr ?loan (final_monthly_returns res)))"
  proof
    assume nr: "\<not> ?raises"
    obtain res where res: "calculate_fund_returns_for_cohort lib sm gps target max_years = Inr res"
        and m: "months_to_target res = find_target_month lib ?loan target ?mr [0..<?n]"
        and rr: "return_reached res = (months_to_target res \<noteq> None)"
        and f: "final_monthly_returns res =
          (case months_to_target res of None \<Rightarrow> ?mr | Some m \<Rightarrow> zero_from m ?mr)"
        and a: "actual_irr res =
          (case call_irr lib ((- ?loan) # final_monthly_returns res) of
             Rate r \<Rightarrow> r
           | NaN \<Rightarrow> 0
           | Raised \<Rightarrow> calculate_simple_irr ?loan (final_monthly_returns res))"
      using calculate_fund_returns_for_cohort_returns [OF assms nr, of target] by blast
    have reached: "\<forall>m. months_to_target res = Some m \<longrightarrow>
          (\<exists>r. call_irr lib ((- ?loan) # take m ?mr) = Rate r \<and> target \<le> r)"
      using find_target_month_Some [of lib ?loan target ?mr "[0..<?n]"] m by metis
    have never: "(\<forall>k < ?n. \<forall>r. call_irr lib ((- ?loan) # take (k + 1) ?mr) \<noteq> Rate r)
        \<longrightarrow> months_to_target res = None \<and> \<not> return_reached res \<and> final_monthly_returns res = ?mr"
    proof
      assume h: "\<forall>k < ?n. \<forall>r. call_irr lib ((- ?loan) # take (k + 1) ?mr) \<noteq> Rate r"
      have "find_target_month lib ?loan target ?mr [0..<?n] = None"
        by (rule find_target_month_None) (use h in auto)
      then have n: "months_to_target res = None" by (simp only: m)
      then show "months_to_target res = None \<and> \<not> return_reached res \<and> final_monthly_returns res = ?mr"
        by (simp add: rr f)
    qed
    have zero: "call_irr lib ((- ?loan) # final_monthly_returns res) = NaN \<longrightarrow> actual_irr res = 0"
      by (simp add: a)
    have simple: "call_irr lib ((- ?loan) # final_monthly_returns res) = Raised \<longrightarrow>
        actual_irr res = calculate_simple_irr ?loan (final_monthly_returns res)"
      by (simp add: a)
    show "\<exists>res. calculate_fund_returns_for_cohort lib sm gps target max_years = Inr res \<and>
             (\<forall>m. months_to_target res = Some m \<longrightarrow>
                (\<exists>r. call_irr lib ((- ?loan) # take m ?mr) = Rate r \<and> target \<le> r)) \<and>
             ((\<forall>k < ?n. \<forall>r. call_irr lib ((- ?loan) # take (k + 1) ?mr) \<noteq> Rate r)
              \<longrightarrow> months_to_target res = None \<and> \<not> return_reached res \<and>
                  final_monthly_returns res = ?mr) \<and>
             (call_irr lib ((- ?loan) # final_monthly_returns res) = NaN \<longrightarrow>
                actual_irr res = 0) \<and>
             (call_irr lib ((- ?loan) # final_monthly_returns res) = Raised \<longrightarrow>
                actual_irr res = calculate_simple_irr ?loan (final_monthly_returns res))"
      using res reached never zero simple by blast
  qed
  have summary: "call_irr lib (take 60 column_sums) \<noteq> Raised \<longrightarrow>
        (\<forall>r. call_irr lib (take 60 column_sums) \<noteq> Rate r) \<longrightarrow>
        calculate_irr lib (take 60 column_sums) = None \<and> summary_irr_cell lib column_sums = 0"
    by (cases "call_irr lib (take 60 column_sums)")
       (simp_all add: calculate_irr_def summary_irr_cell_def)
  show ?thesis
    using thrown returned summary by blast
qed

theorem undefined_irr_excluded_witness:
  "nat (min 60 (5 * 12)) \<le> length empty_series \<and>
   call_irr (Some (irr_among []))
     ((- (100 * (4 / 5))) # monthly_returns_of empty_series (nat (min 60 (5 * 12)))) \<noteq> Raised \<and>
   map_sum id months_to_target
     (calculate_fund_returns_for_cohort (Some (irr_among [])) 100 empty_series (4 / 25) 5)
     = Inr None \<and>
   map_sum id return_reached
     (calculate_fund_returns_for_cohort (Some (irr_among [])) 100 empty_series (4 / 25) 5)
     = Inr False \<and>
   map_sum id actual_irr
     (calculate_fund_returns_for_cohort (Some (irr_among [])) 100 empty_series (4 / 25) 5)
     = Inr 0 \<and>
   map_sum id actual_irr
     (calculate_fund_returns_for_cohort None 100 empty_series (4 / 25) 5) = Inr (- 1)"
proof -
  let ?lib = "Some (irr_among [])"
  let ?n = "nat (min 60 (5 * 12))"
  have nan: "call_irr ?lib cfs = NaN" for cfs
    by (simp add: call_irr_def irr_among_def)
  have len: "?n \<le> length empty_series"
    by (simp add: empty_series_def)
  have nr: "call_irr ?lib ((- (100 * (4 / 5))) # monthly_returns_of empty_series ?n) \<noteq> Raised"
    by (simp add: nan)
  then have first: "\<not> (?lib \<noteq> None \<and> 0 < ?n \<and> (0::real) < 100 * (4 / 5) \<and>
      call_irr ?lib ((- (100 * (4 / 5))) # monthly_returns_of empty_series ?n) = Raised)"
    by blast
  have "\<not> (?lib \<noteq> None \<and> 0 < ?n \<and> (0::real) < 100 * (4 / 5) \<and>
          call_irr ?lib ((- (100 * (4 / 5))) # monthly_returns_of empty_series ?n) = Raised) \<longrightarrow>
        (\<exists>res. calculate_fund_returns_for_cohort ?lib 100 empty_series (4 / 25) 5 = Inr res \<and>
           ((\<forall>k < ?n. \<forall>r.
                call_irr ?lib ((- (100 * (4 / 5)))
                  # take (k + 1) (monthly_returns_of empty_series ?n)) \<noteq> Rate r)
            \<longrightarrow> months_to_target res = None \<and> \<not> return_reached res \<and>
                final_monthly_returns res = monthly_returns_of empty_series ?n) \<and>
           (call_irr ?lib ((- (100 * (4 / 5))) # final_monthly_returns res) = NaN \<longrightarrow>
              actual_irr res = 0))"
    using undefined_irr_excluded_and_reported
      [where lib = ?lib and sm = 100 and target = "4 / 25" and gps = empty_series
         and max_years = 5, OF len]
    by blast
  then obtain res where res: "calculate_fund_returns_for_cohort ?lib 100 empty_series (4 / 25) 5 = Inr res"
      and never: "(\<forall>k < ?n. \<forall>r.
                call_irr ?lib ((- (100 * (4 / 5)))
                  # take (k + 1) (monthly_returns_of empty_series ?n)) \<noteq> Rate r)
            \<longrightarrow> months_to_target res = None \<and> \<not> return_reached res \<and>
                final_monthly_returns res = monthly_returns_of empty_series ?n"
      and zero: "call_irr ?lib ((- (100 * (4 / 5))) # final_monthly_returns res) = NaN \<longrightarrow>
              actual_irr res = 0"
    using first by blast
  have "months_to_target res = None \<and> \<not> return_reached res"
    using never by (simp add: nan)
  moreover have "actual_irr res = 0"
    using zero by (simp add: nan)
  moreover have "map_sum id actual_irr
     (calculate_fund_returns_for_cohort None 100 empty_series (4 / 25) 5) = Inr (- 1)"
    using missing_library_empty_series_result by auto
  ultimately show ?thesis
    using len nr res by simp
qed

end
